theory Spec2Isabelle
  imports Main
begin

section \<open>The libvirt guest of the diana provision plugin\<close>

text \<open>
  A shallow embedding of \<^verbatim>\<open>src/tmt/steps/provision/diana.py\<close> (class \<^verbatim>\<open>GuestDiana\<close>).
  Every method is a function of an environment (the external world: processes started
  with \<^verbatim>\<open>subprocess.run\<close> and the generic SSH guest of tmt), of the guest handle and
  of the history of external events so far; it returns the raised exception or the
  returned value, the handle where the method assigns to it, and the extended history.
  A leading underscore of a Python name is written \<open>priv_\<close>.
\<close>

subsection \<open>Python text and list primitives\<close>

datatype error =
    CalledProcessError "string list" int
  | IndexError
  | TypeError
  | AttributeError
  | UnboundLocalError
  | AssertionError
  | ProvisionError string
  | ProvisionErrorInstall "string list" int
  | CollaboratorError string

text \<open>
  \<open>CalledProcessError cmd rc\<close> carries the command and its exit status.
  \<open>ProvisionErrorInstall cmd rc\<close> is the \<^verbatim>\<open>ProvisionError\<close> of \<^verbatim>\<open>start\<close> whose message
  interpolates the \<^verbatim>\<open>CalledProcessError\<close> of the installation; the interpolated error is
  kept structured. \<open>CollaboratorError\<close> is whatever the generic SSH guest raises.
\<close>

fun is_CalledProcessError :: "error \<Rightarrow> bool" where
  "is_CalledProcessError (CalledProcessError c r) = True"
| "is_CalledProcessError e = False"

text \<open>\<^verbatim>\<open>xs[i]\<close>: a negative index counts from the end, an index out of range raises.\<close>

definition py_index :: "'a list \<Rightarrow> int \<Rightarrow> error + 'a" where
  "py_index xs i =
     (if 0 \<le> i \<and> i < int (length xs) then Inr (xs ! nat i)
      else if i < 0 \<and> 0 \<le> i + int (length xs) then Inr (xs ! nat (i + int (length xs)))
      else Inl IndexError)"

text \<open>
  Text is a list of code points below 256. The line boundaries of \<^verbatim>\<open>str.splitlines\<close>
  in that range are LF, VT, FF, CR (CR LF counting once), FS, GS, RS and NEL; the white
  space of \<^verbatim>\<open>str.split()\<close> is TAB, LF, VT, FF, CR, FS, GS, RS, US, space, NEL and NBSP.
\<close>

definition is_linebreak :: "char \<Rightarrow> bool" where
  "is_linebreak c \<longleftrightarrow>
     c \<in> set [CHR 0x0A, CHR 0x0B, CHR 0x0C, CHR 0x0D, CHR 0x1C, CHR 0x1D, CHR 0x1E, CHR 0x85]"

definition is_space :: "char \<Rightarrow> bool" where
  "is_space c \<longleftrightarrow>
     c \<in> set [CHR 0x09, CHR 0x0A, CHR 0x0B, CHR 0x0C, CHR 0x0D, CHR 0x1C, CHR 0x1D, CHR 0x1E,
               CHR 0x1F, CHR 0x20, CHR 0x85, CHR 0xA0]"

fun splitlines :: "string \<Rightarrow> string list" where
  "splitlines [] = []"
| "splitlines (c # d # cs) =
     (if c = CHR 0x0D \<and> d = CHR 0x0A then [] # splitlines cs
      else if is_linebreak c then [] # splitlines (d # cs)
      else (case splitlines (d # cs) of [] \<Rightarrow> [[c]] | l # ls \<Rightarrow> (c # l) # ls))"
| "splitlines [c] = (if is_linebreak c then [[]] else [[c]])"

text \<open>\<^verbatim>\<open>str.split()\<close> without a separator: the maximal runs of non-space characters.\<close>

function split_ws :: "string \<Rightarrow> string list" where
  "split_ws [] = []"
| "split_ws (c # cs) =
     (if is_space c then split_ws cs
      else (c # takeWhile (\<lambda>x. \<not> is_space x) cs) # split_ws (dropWhile (\<lambda>x. \<not> is_space x) cs))"
  by pat_completeness auto
termination
  by (relation "measure length") (auto simp: le_imp_less_Suc length_dropWhile_le)

text \<open>\<^verbatim>\<open>str.split(sep)\<close> for a separator of one character: never an empty list.\<close>

fun split_sep :: "char \<Rightarrow> string \<Rightarrow> string list" where
  "split_sep s [] = [[]]"
| "split_sep s (c # cs) =
     (if c = s then [] # split_sep s cs
      else (case split_sep s cs of [] \<Rightarrow> [[c]] | l # ls \<Rightarrow> (c # l) # ls))"

text \<open>\<^verbatim>\<open>str.rstrip('\n')\<close>.\<close>

definition rstrip_nl :: "string \<Rightarrow> string" where
  "rstrip_nl s = rev (dropWhile (\<lambda>c. c = CHR 0x0A) (rev s))"

text \<open>\<^verbatim>\<open>'\n'.join(lines)\<close>.\<close>

fun join_nl :: "string list \<Rightarrow> string" where
  "join_nl [] = []"
| "join_nl [l] = l"
| "join_nl (l # ls) = l @ CHR 0x0A # join_nl ls"

text \<open>\<^verbatim>\<open>str(x)\<close> of an optional string, as a template prints it.\<close>

definition str_of :: "string option \<Rightarrow> string" where
  "str_of x = (case x of None \<Rightarrow> ''None'' | Some s \<Rightarrow> s)"

text \<open>
  Paths are strings. \<^verbatim>\<open>workdir / name\<close> for a name without a slash: the string of a
  path has no trailing slash unless it is a root, and is \<^verbatim>\<open>.\<close> for the empty path, and
  the join puts one slash between a directory and the name.
\<close>

type_synonym path = string

definition path_join :: "path \<Rightarrow> string \<Rightarrow> path" where
  "path_join d n =
     (if d = [] \<or> d = ''.'' then n
      else if last d = CHR ''/'' then d @ n
      else d @ ''/'' @ n)"

text \<open>\<^verbatim>\<open>os.path.basename\<close>: what follows the last slash.\<close>

definition basename :: "path \<Rightarrow> string" where
  "basename p = rev (takeWhile (\<lambda>c. c \<noteq> CHR ''/'') (rev p))"

text \<open>\<^verbatim>\<open>d[k]\<close> inside a template: a missing key prints as the empty string.\<close>

definition template_item :: "(string \<times> string) list \<Rightarrow> string \<Rightarrow> string" where
  "template_item d k = (case map_of d k of None \<Rightarrow> [] | Some v \<Rightarrow> v)"

subsection \<open>The external world\<close>

datatype reboot_command = Command "string list" | ShellScript string

datatype ssh_call =
    Super_is_ready
  | Super_stop
  | Super_reboot bool reboot_command
  | Reconnect "int option" "int option"

datatype event =
    Run "string list"
  | Sleep nat
  | OpenW path
  | WriteFile path string
  | Verbose string string string
  | Info string string string
  | Call ssh_call

record completed =
  returncode :: int
  stdout :: string

text \<open>
  The environment answers every external call from the history before the call: \<open>proc\<close>
  is the process started by \<^verbatim>\<open>subprocess.run\<close> (its exit status and captured output),
  \<open>collab\<close> the generic SSH guest of tmt (\<^verbatim>\<open>super().is_ready\<close>, \<^verbatim>\<open>super().stop()\<close>,
  \<^verbatim>\<open>super().reboot(...)\<close>, \<^verbatim>\<open>self.reconnect(...)\<close>), \<open>tmt_name\<close> the result of
  \<^verbatim>\<open>self._tmt_name()\<close> and \<open>dry\<close> the value of \<^verbatim>\<open>self.opt('dry')\<close>. The executables are
  taken to exist and the working directory to be writable.
\<close>

record env =
  proc :: "event list \<Rightarrow> string list \<Rightarrow> completed"
  collab :: "event list \<Rightarrow> ssh_call \<Rightarrow> error + bool"
  tmt_name :: "event list \<Rightarrow> string"
  dry :: bool

text \<open>
  The guest handle: the fields of \<^verbatim>\<open>DianaGuestData\<close> and those of the SSH guest data
  that this file reads or assigns (\<^verbatim>\<open>key\<close>, \<^verbatim>\<open>guest\<close>, \<^verbatim>\<open>port\<close>, \<^verbatim>\<open>workdir\<close>).
  \<open>hardware\<close> is the requirement mapping or \<^verbatim>\<open>None\<close>. \<open>workdir\<close> is the string
  of the working directory's path.
\<close>

record guest_handle =
  connection_uri :: "string option"
  location :: "string option"
  user :: "string option"
  instance_name :: "string option"
  hardware :: "(string \<times> string) list option"
  kickstart :: "(string \<times> string) list"
  key :: "path list"
  guest :: "string option"
  port :: "nat option"
  workdir :: path

text \<open>
  \<^verbatim>\<open>subprocess.run(argv, check=...)\<close>: an argument that is \<^verbatim>\<open>None\<close> raises
  \<^verbatim>\<open>TypeError\<close> before any process starts; with \<^verbatim>\<open>check\<close> a non-zero exit status
  raises \<^verbatim>\<open>CalledProcessError\<close>.
\<close>

definition subprocess_run ::
    "env \<Rightarrow> string option list \<Rightarrow> bool \<Rightarrow> event list \<Rightarrow> (error + completed) \<times> event list" where
  "subprocess_run E argv check h =
     (if None \<in> set argv then (Inl TypeError, h)
      else
        (let cmd = map the argv; cp = proc E h cmd in
         (if check \<and> returncode cp \<noteq> 0 then Inl (CalledProcessError cmd (returncode cp))
          else Inr cp,
          h @ [Run cmd])))"

definition call_collab :: "env \<Rightarrow> ssh_call \<Rightarrow> event list \<Rightarrow> (error + bool) \<times> event list" where
  "call_collab E c h = (collab E h c, h @ [Call c])"

subsection \<open>The methods of GuestDiana\<close>

definition priv_virsh ::
    "env \<Rightarrow> guest_handle \<Rightarrow> string option list \<Rightarrow> event list \<Rightarrow> (error + completed) \<times> event list" where
  "priv_virsh E g args h =
     subprocess_run E ([Some ''virsh'', Some ''-c'', connection_uri g] @ args) True h"

definition guest_state :: "env \<Rightarrow> guest_handle \<Rightarrow> event list \<Rightarrow> (error + string) \<times> event list" where
  "guest_state E g h =
     (case priv_virsh E g [Some ''domstate'', instance_name g] h of
        (Inl e, h1) \<Rightarrow> (Inl e, h1)
      | (Inr cp, h1) \<Rightarrow> (py_index (splitlines (stdout cp)) 0, h1))"

definition is_ready :: "env \<Rightarrow> guest_handle \<Rightarrow> event list \<Rightarrow> (error + bool) \<times> event list" where
  "is_ready E g h =
     (case guest_state E g h of
        (Inl e, h1) \<Rightarrow> (Inl e, h1)
      | (Inr s, h1) \<Rightarrow> if s \<noteq> ''running'' then (Inr False, h1) else call_collab E Super_is_ready h1)"

text \<open>\<^verbatim>\<open>stdout.splitlines()[-2].split()[-1].split('/')[0]\<close>\<close>

definition parse_domifaddr :: "string \<Rightarrow> error + string" where
  "parse_domifaddr out =
     (case py_index (splitlines out) (- 2) of
        Inl e \<Rightarrow> Inl e
      | Inr line \<Rightarrow>
          (case py_index (split_ws line) (- 1) of
             Inl e \<Rightarrow> Inl e
           | Inr field \<Rightarrow> py_index (split_sep (CHR ''/'') field) 0))"

text \<open>
  The loop of \<^verbatim>\<open>get_guest_ip\<close>, by the number of iterations left. Only
  \<^verbatim>\<open>CalledProcessError\<close> is caught. The name \<^verbatim>\<open>e\<close> bound by \<^verbatim>\<open>except ... as e\<close> is
  unbound again when the handler ends, so the \<^verbatim>\<open>raise e\<close> after the loop raises
  \<^verbatim>\<open>UnboundLocalError\<close>.
\<close>

fun get_guest_ip_loop ::
    "env \<Rightarrow> guest_handle \<Rightarrow> nat \<Rightarrow> event list \<Rightarrow> (error + string) \<times> event list" where
  "get_guest_ip_loop E g 0 h = (Inl UnboundLocalError, h)"
| "get_guest_ip_loop E g (Suc n) h =
     (case priv_virsh E g [Some ''domifaddr'', instance_name g] h of
        (Inr cp, h1) \<Rightarrow> (parse_domifaddr (stdout cp), h1)
      | (Inl e, h1) \<Rightarrow>
          if is_CalledProcessError e then get_guest_ip_loop E g n (h1 @ [Sleep 1])
          else (Inl e, h1))"

definition get_guest_ip :: "env \<Rightarrow> guest_handle \<Rightarrow> event list \<Rightarrow> (error + string) \<times> event list" where
  "get_guest_ip E g h = get_guest_ip_loop E g 10 h"

definition priv_generate_ssh_key ::
    "env \<Rightarrow> guest_handle \<Rightarrow> event list \<Rightarrow> (error + unit) \<times> guest_handle \<times> event list" where
  "priv_generate_ssh_key E g h =
     (if key g \<noteq> [] then (Inr (), g, h)
      else
        (let g1 = g\<lparr>key := [path_join (workdir g) ''ssh_key'']\<rparr> in
         case py_index (key g1) 0 of
           Inl e \<Rightarrow> (Inl e, g1, h)
         | Inr k \<Rightarrow>
             (case subprocess_run E [Some ''ssh-keygen'', Some ''-f'', Some k, Some ''-N'', Some ''''] True h of
                (Inl e, h1) \<Rightarrow> (Inl e, g1, h1)
              | (Inr cp, h1) \<Rightarrow> (Inr (), g1, h1))))"

definition ssh_pubkey ::
    "env \<Rightarrow> guest_handle \<Rightarrow> event list \<Rightarrow> (error + string) \<times> guest_handle \<times> event list" where
  "ssh_pubkey E g h =
     (case priv_generate_ssh_key E g h of
        (Inl e, g1, h1) \<Rightarrow> (Inl e, g1, h1)
      | (Inr u, g1, h1) \<Rightarrow>
          (case py_index (key g1) 0 of
             Inl e \<Rightarrow> (Inl e, g1, h1)
           | Inr k \<Rightarrow>
               (case subprocess_run E [Some ''ssh-keygen'', Some ''-y'', Some ''-f'', Some k] False h1 of
                  (Inl e, h2) \<Rightarrow> (Inl e, g1, h2)
                | (Inr cp, h2) \<Rightarrow> (Inr (rstrip_nl (stdout cp)), g1, h2))))"

text \<open>
  The kickstart template, rendered: the first line of the template is empty and the
  newline that ends it is dropped by the template engine.
\<close>

definition KICKSTART_TEMPLATE :: "string \<Rightarrow> string \<Rightarrow> string \<Rightarrow> string \<Rightarrow> string \<Rightarrow> string" where
  "KICKSTART_TEMPLATE usr pubkey script pre post =
     join_nl
       ['''',
        ''# partitioning'',
        ''clearpart --all --initlabel'',
        ''autopart'',
        '''',
        ''# accounts'',
        ''rootpw rootoor'',
        ''sshkey --username '' @ [CHR 0x27] @ usr @ [CHR 0x27, CHR 0x20, CHR 0x27] @ pubkey @ [CHR 0x27],
        '''',
        ''reboot'',
        '''',
        ''# packages'',
        ''%packages'',
        ''%end'',
        '''',
        ''# scripts'',
        ''%post'',
        ''source /etc/os-release'',
        ''%end'',
        '''',
        ''# user provided data'',
        script,
        pre,
        post]"

definition priv_kickstart ::
    "env \<Rightarrow> guest_handle \<Rightarrow> event list \<Rightarrow> (error + string) \<times> guest_handle \<times> event list" where
  "priv_kickstart E g h =
     (case ssh_pubkey E g h of
        (Inl e, g1, h1) \<Rightarrow> (Inl e, g1, h1)
      | (Inr pk, g1, h1) \<Rightarrow>
          (Inr (KICKSTART_TEMPLATE (str_of (user g1)) pk
                  (template_item (kickstart g1) ''script'')
                  (template_item (kickstart g1) ''pre-install'')
                  (template_item (kickstart g1) ''post-install'')),
           g1, h1))"

text \<open>\<^verbatim>\<open>not hardware\<close> is false for a non-empty mapping only.\<close>

definition truthy :: "(string \<times> string) list option \<Rightarrow> bool" where
  "truthy hw = (case hw of None \<Rightarrow> False | Some d \<Rightarrow> d \<noteq> [])"

definition virt_install_cmd :: "guest_handle \<Rightarrow> path \<Rightarrow> string option list" where
  "virt_install_cmd g ksname =
     [Some ''virt-install'',
      Some ''--connect'', connection_uri g,
      Some ''--name'', instance_name g,
      Some ''--memory'', Some ''4096'',
      Some ''--vcpus'', Some ''4'',
      Some ''--graphics'', Some ''none'',
      Some ''--extra-args'', Some (''console=ttyS0 inst.ks=file://'' @ basename ksname),
      Some ''--initrd-inject'', Some ksname,
      Some ''--noreboot'',
      Some ''--location'', location g]"

definition priv_install ::
    "env \<Rightarrow> guest_handle \<Rightarrow> event list \<Rightarrow> (error + unit) \<times> guest_handle \<times> event list" where
  "priv_install E g h =
     (case guest_state E g h of
        (Inr s, h1) \<Rightarrow> (Inr (), g, h1)
      | (Inl e, h1) \<Rightarrow>
          if \<not> is_CalledProcessError e then (Inl e, g, h1)
          else
            (let hw = hardware g;
                 ksname = path_join (workdir g) ''ks.cfg'';
                 h2 = h1 @ [Verbose ''progress'' ''preparing for installation...'' ''cyan'', OpenW ksname]
             in case priv_kickstart E g h2 of
                  (Inl e, g3, h3) \<Rightarrow> (Inl e, g3, h3)
                | (Inr ks, g3, h3) \<Rightarrow>
                    (let h4 = h3 @ [WriteFile ksname ks] in
                     if truthy hw then (Inl AssertionError, g3, h4)
                     else
                       (case subprocess_run E (virt_install_cmd g3 ksname) True
                               (h4 @ [Info ''progress'' ''installing...'' ''cyan'']) of
                          (Inl e, h5) \<Rightarrow> (Inl e, g3, h5)
                        | (Inr cp, h5) \<Rightarrow> (Inr (), g3, h5)))))"

text \<open>
  The handler of \<^verbatim>\<open>start\<close> around the installation: a \<^verbatim>\<open>CalledProcessError\<close> becomes
  a \<^verbatim>\<open>ProvisionError\<close>, any other exception passes.
\<close>

fun install_error :: "error \<Rightarrow> error" where
  "install_error (CalledProcessError c r) = ProvisionErrorInstall c r"
| "install_error e = e"

definition start ::
    "env \<Rightarrow> guest_handle \<Rightarrow> event list \<Rightarrow> (error + unit) \<times> guest_handle \<times> event list" where
  "start E g h =
     (let name = tmt_name E h;
          g1 = g\<lparr>instance_name := Some name\<rparr>;
          h1 = h @ [Verbose ''instance_name'' name ''yellow'']
      in if dry E then (Inr (), g1, h1)
         else
           (case priv_install E g1 h1 of
              (Inl e, g2, h2) \<Rightarrow> (Inl (install_error e), g2, h2)
            | (Inr u, g2, h2) \<Rightarrow>
                (case guest_state E g2 h2 of
                   (Inl e, h3) \<Rightarrow> (Inl e, g2, h3)
                 | (Inr s, h3) \<Rightarrow>
                     (case (if s \<noteq> ''running''
                            then priv_virsh E g2 [Some ''start'', instance_name g2] h3
                            else (Inr \<lparr>returncode = 0, stdout = []\<rparr>, h3)) of
                        (Inl e, h4) \<Rightarrow> (Inl e, g2, h4)
                      | (Inr cp, h4) \<Rightarrow>
                          (case get_guest_ip E g2 h4 of
                             (Inl e, h5) \<Rightarrow> (Inl e, g2, h5)
                           | (Inr a, h5) \<Rightarrow>
                               (let g3 = g2\<lparr>guest := Some a, port := Some 22\<rparr>;
                                    h6 = h5 @ [Verbose ''ip'' a ''green'', Verbose ''port'' ''22'' ''green'']
                                in case call_collab E (Reconnect (Some 60) (Some 1)) h6 of
                                     (Inl e, h7) \<Rightarrow> (Inl e, g3, h7)
                                   | (Inr ok, h7) \<Rightarrow>
                                       if \<not> ok
                                       then (Inl (ProvisionError ''Failed to connect in 60s.''), g3, h7)
                                       else (Inr (), g3, h7)))))))"

definition stop :: "env \<Rightarrow> guest_handle \<Rightarrow> event list \<Rightarrow> (error + unit) \<times> event list" where
  "stop E g h =
     (case call_collab E Super_stop h of
        (Inl e, h1) \<Rightarrow> (Inl e, h1)
      | (Inr u, h1) \<Rightarrow>
          (case priv_virsh E g [Some ''shutdown'', instance_name g] h1 of
             (Inl e, h2) \<Rightarrow> (Inl e, h2)
           | (Inr cp, h2) \<Rightarrow> (Inr (), h2 @ [Info ''guest'' ''stopped'' ''green''])))"

text \<open>The confirmation loop of \<^verbatim>\<open>remove\<close>, by the number of iterations left.\<close>

fun remove_poll :: "env \<Rightarrow> guest_handle \<Rightarrow> nat \<Rightarrow> event list \<Rightarrow> (error + unit) \<times> event list" where
  "remove_poll E g 0 h = (Inr (), h)"
| "remove_poll E g (Suc n) h =
     (case guest_state E g h of
        (Inl e, h1) \<Rightarrow> (Inl e, h1)
      | (Inr s, h1) \<Rightarrow>
          if s = ''shut off'' then (Inr (), h1) else remove_poll E g n (h1 @ [Sleep 1]))"

definition undefine_args :: "guest_handle \<Rightarrow> string option list" where
  "undefine_args g =
     [Some ''undefine'', Some ''--remove-all-storage'', Some ''--nvram'', Some ''--tpm'', instance_name g]"

definition remove :: "env \<Rightarrow> guest_handle \<Rightarrow> event list \<Rightarrow> (error + unit) \<times> event list" where
  "remove E g h =
     (case guest_state E g h of
        (Inl e, h1) \<Rightarrow> (Inl e, h1)
      | (Inr s, h1) \<Rightarrow>
          (case (if s \<noteq> ''shut off''
                 then (case priv_virsh E g [Some ''destroy'', instance_name g] h1 of
                         (Inl e, h2) \<Rightarrow> (Inl e, h2)
                       | (Inr cp, h2) \<Rightarrow> remove_poll E g 10 h2)
                 else (Inr (), h1)) of
             (Inl e, h3) \<Rightarrow> (Inl e, h3)
           | (Inr u, h3) \<Rightarrow>
               (case priv_virsh E g (undefine_args g) h3 of
                  (Inl e, h4) \<Rightarrow> (Inl e, h4)
                | (Inr cp, h4) \<Rightarrow> (Inr (), h4 @ [Info ''guest'' ''removed'' ''green'']))))"

text \<open>
  The read of \<^verbatim>\<open>self._instance\<close>: no class of this file declares the attribute and no
  method assigns it, so the read raises \<^verbatim>\<open>AttributeError\<close> on every handle.
\<close>

definition priv_instance :: "guest_handle \<Rightarrow> error + bool" where
  "priv_instance g = Inl AttributeError"

text \<open>
  \<^verbatim>\<open>reboot\<close>: the parameters \<^verbatim>\<open>tick\<close> and \<^verbatim>\<open>tick_increase\<close> are never read by the body
  and are left out. A command object that is passed is true in \<^verbatim>\<open>if command\<close>.
\<close>

definition reboot ::
    "env \<Rightarrow> guest_handle \<Rightarrow> bool \<Rightarrow> reboot_command option \<Rightarrow> int option \<Rightarrow> event list \<Rightarrow>
       (error + bool) \<times> event list" where
  "reboot E g hard command timeout h =
     (case command of
        Some c \<Rightarrow> call_collab E (Super_reboot hard c) h
      | None \<Rightarrow>
          (case priv_instance g of
             Inl e \<Rightarrow> (Inl e, h)
           | Inr inst \<Rightarrow>
               if \<not> inst then (Inl (ProvisionError ''No instance initialized.''), h)
               else call_collab E (Reconnect timeout None) h))"

subsection \<open>Observations on a history\<close>

definition virsh_cmd :: "string \<Rightarrow> string list \<Rightarrow> string list" where
  "virsh_cmd u args = ''virsh'' # ''-c'' # u # args"

text \<open>The events of \<open>i\<close> failed attempts of the query \<open>q\<close>, each followed by its sleep.\<close>

definition failed_attempts :: "string list \<Rightarrow> nat \<Rightarrow> event list" where
  "failed_attempts q i = concat (replicate i [Run q, Sleep 1])"

fun is_run :: "event \<Rightarrow> bool" where
  "is_run (Run cmd) = True"
| "is_run e = False"

fun is_install :: "event \<Rightarrow> bool" where
  "is_install (Run cmd) = (take 1 cmd = [''virt-install''])"
| "is_install e = False"

definition installs :: "event list \<Rightarrow> nat" where
  "installs h = length (filter is_install h)"

fun is_keygen :: "event \<Rightarrow> bool" where
  "is_keygen (Run cmd) = (take 2 cmd = [''ssh-keygen'', ''-f''])"
| "is_keygen e = False"

definition derive_cmd :: "path \<Rightarrow> string list" where
  "derive_cmd k = [''ssh-keygen'', ''-y'', ''-f'', k]"

text \<open>The subcommand of a virsh invocation; state queries are left out of \<open>virsh_commands\<close>.\<close>

fun virsh_subcommand :: "event \<Rightarrow> string list" where
  "virsh_subcommand (Run (a # b # c # d # rest)) = (if a = ''virsh'' then [d] else [])"
| "virsh_subcommand e = []"

definition virsh_commands :: "event list \<Rightarrow> string list" where
  "virsh_commands evs = filter (\<lambda>c. c \<noteq> ''domstate'') (concat (map virsh_subcommand evs))"

text \<open>The public-key accessor read \<open>n\<close> times in a row.\<close>

fun ssh_pubkey_calls :: "env \<Rightarrow> nat \<Rightarrow> guest_handle \<Rightarrow> event list \<Rightarrow> guest_handle \<times> event list" where
  "ssh_pubkey_calls E 0 g h = (g, h)"
| "ssh_pubkey_calls E (Suc n) g h =
     (case ssh_pubkey E g h of (r, g1, h1) \<Rightarrow> ssh_pubkey_calls E n g1 h1)"

subsection \<open>A scripted hypervisor for the concrete checks\<close>

text \<open>
  A script gives, for a subcommand, the answer to its \<open>n\<close>-th invocation (counted from 0);
  a subcommand without a script exits with status 0 and prints nothing.
\<close>

definition subcommand :: "string list \<Rightarrow> string" where
  "subcommand cmd = (case cmd of a # b # c # d # rest \<Rightarrow> if a = ''virsh'' then d else a
                     | a # rest \<Rightarrow> a | [] \<Rightarrow> [])"

fun earlier :: "string \<Rightarrow> event \<Rightarrow> bool" where
  "earlier s (Run cmd) = (subcommand cmd = s)"
| "earlier s e = False"

definition ok :: "string \<Rightarrow> completed" where
  "ok out = \<lparr>returncode = 0, stdout = out\<rparr>"

definition failed :: completed where
  "failed = \<lparr>returncode = 1, stdout = []\<rparr>"

definition scripted :: "(string \<times> (nat \<Rightarrow> completed)) list \<Rightarrow> bool \<Rightarrow> env" where
  "scripted script d =
     \<lparr>proc = (\<lambda>h cmd. case map_of script (subcommand cmd) of
                        None \<Rightarrow> ok []
                      | Some f \<Rightarrow> f (length (filter (earlier (subcommand cmd)) h))),
      collab = (\<lambda>h c. Inr True),
      tmt_name = (\<lambda>h. ''g1''),
      dry = d\<rparr>"

definition domifaddr_table :: string where
  "domifaddr_table =
     '' Name MAC Protocol Address\<newline>------\<newline> vnet0 52:54:00:00:00:01 ipv4 192.0.2.5/24\<newline>\<newline>''"

definition handle0 :: guest_handle where
  "handle0 =
     \<lparr>connection_uri = Some ''qemu:///system'', location = Some ''http://example/os'',
      user = Some ''root'', instance_name = Some ''g1'', hardware = None, kickstart = [],
      key = [], guest = None, port = None, workdir = ''/w''\<rparr>"

text \<open>The address query fails twice, then prints the table.\<close>

definition flaky_env :: env where
  "flaky_env = scripted [(''domifaddr'', (\<lambda>n. if n < 2 then failed else ok domifaddr_table))] False"

text \<open>The address query fails every time.\<close>

definition dead_env :: env where
  "dead_env = scripted [(''domifaddr'', (\<lambda>n. failed))] False"

text \<open>The address query prints nothing the first time, then the table.\<close>

definition short_env :: env where
  "short_env = scripted [(''domifaddr'', (\<lambda>n. if n < 1 then ok [] else ok domifaddr_table))] False"

text \<open>The domain is reported running at every state query.\<close>

definition running_env :: env where
  "running_env = scripted [(''domstate'', (\<lambda>n. ok ''running\<newline>''))] False"


text \<open>The command that generates the key-pair at the path \<open>k\<close>.\<close>

definition keygen_cmd :: "path \<Rightarrow> string list" where
  "keygen_cmd k = [''ssh-keygen'', ''-f'', k, ''-N'', '''']"

text \<open>Every ssh-keygen invocation succeeds and prints a public key.\<close>

definition key_env :: env where
  "key_env = scripted [(''ssh-keygen'', (\<lambda>n. ok ''ssh-ed25519 AAAA\<newline>''))] False"

text \<open>
  No domain at the first state query, a domain that is shut off at the second and a
  running one afterwards; the address query prints the table and ssh-keygen a public key.
\<close>

definition fresh_env :: env where
  "fresh_env =
     scripted
       [(''domstate'', (\<lambda>n. if n = 0 then failed else if n = 1 then ok ''shut off\<newline>''
                              else ok ''running\<newline>'')),
        (''domifaddr'', (\<lambda>n. ok domifaddr_table)),
        (''ssh-keygen'', (\<lambda>n. ok ''ssh-ed25519 AAAA\<newline>''))]
       False"

text \<open>A handle with a hardware requirement.\<close>

definition hw_handle :: guest_handle where
  "hw_handle = handle0\<lparr>hardware := Some [(''memory'', ''2 GB'')]\<rparr>"

section \<open>Properties\<close>

subsection \<open>Reboot, readiness and the dry run\<close>

text \<open>
  C5. A reboot without a command never reaches the check for a started instance: the
  read of the instance attribute raises \<^verbatim>\<open>AttributeError\<close>, not the provisioning error
  "No instance initialized." that the check would raise. No event is added to the
  history: no external call is made.
\<close>

theorem reboot_attribute_error:
  "reboot E g hard None timeout h = (Inl AttributeError, h) \<and>
   fst (reboot E g hard None timeout h) \<noteq> Inl (ProvisionError ''No instance initialized.'')"
  by (simp add: reboot_def priv_instance_def)

text \<open>
  C7. \<open>is_ready\<close> returns true exactly when the state query returns "running" and the
  readiness of the generic SSH guest, asked after that query, is true.
\<close>

theorem is_ready_conjunction:
  "fst (is_ready E g h) = Inr True \<longleftrightarrow>
     fst (guest_state E g h) = Inr ''running'' \<and>
     fst (call_collab E Super_is_ready (snd (guest_state E g h))) = Inr True"
  by (auto simp: is_ready_def split: prod.splits sum.splits)

text \<open>
  C10. With the dry option, \<open>start\<close> records the generated instance name, logs it and
  returns: the history gains that one log line and no other field of the handle changes.
\<close>

theorem start_dry:
  "dry E \<Longrightarrow>
     start E g h =
       (Inr (), g\<lparr>instance_name := Some (tmt_name E h)\<rparr>,
        h @ [Verbose ''instance_name'' (tmt_name E h) ''yellow''])"
  by (simp add: start_def Let_def)

theorem start_dry_witness:
  "dry (scripted [] True) \<and>
   start (scripted [] True) handle0 [] =
     (Inr (), handle0\<lparr>instance_name := Some ''g1''\<rparr>, [Verbose ''instance_name'' ''g1'' ''yellow''])"
  using start_dry [of "scripted [] True" handle0 "[]"]
  by (simp add: scripted_def)

subsection \<open>Address resolution\<close>

lemma priv_virsh_Some:
  assumes "connection_uri g = Some u" and "None \<notin> set args"
  shows "priv_virsh E g args h =
           (if returncode (proc E h (virsh_cmd u (map the args))) \<noteq> 0
            then Inl (CalledProcessError (virsh_cmd u (map the args))
                        (returncode (proc E h (virsh_cmd u (map the args)))))
            else Inr (proc E h (virsh_cmd u (map the args))),
            h @ [Run (virsh_cmd u (map the args))])"
  using assms by (simp add: priv_virsh_def subprocess_run_def virsh_cmd_def Let_def)

lemma failed_attempts_Suc: "failed_attempts q (Suc i) = Run q # Sleep 1 # failed_attempts q i"
  by (simp add: failed_attempts_def)

lemma get_guest_ip_loop_attempts:
  assumes "connection_uri g = Some u" and "instance_name g = Some n"
    and "q = virsh_cmd u [''domifaddr'', n]"
    and "\<forall>i<j. returncode (proc E (h @ failed_attempts q i) q) \<noteq> 0"
    and "returncode (proc E (h @ failed_attempts q j) q) = 0"
    and "j < m"
  shows "get_guest_ip_loop E g m h =
           (parse_domifaddr (stdout (proc E (h @ failed_attempts q j) q)),
            h @ failed_attempts q j @ [Run q])"
  using assms
proof (induction j arbitrary: m h)
  case 0
  then obtain m' where m: "m = Suc m'" by (cases m) auto
  from 0 show ?case
    by (simp add: m priv_virsh_Some [where u = u] failed_attempts_def)
next
  case (Suc j)
  then obtain m' where m: "m = Suc m'" by (cases m) auto
  from Suc.prems have first: "returncode (proc E h q) \<noteq> 0"
    by (auto simp: failed_attempts_def dest: spec [where x = 0])
  have later: "\<forall>i<j. returncode (proc E ((h @ [Run q, Sleep 1]) @ failed_attempts q i) q) \<noteq> 0"
  proof (intro allI impI)
    fix i assume "i < j"
    then have "Suc i < Suc j" by simp
    with Suc.prems(4) have "returncode (proc E (h @ failed_attempts q (Suc i)) q) \<noteq> 0" by blast
    then show "returncode (proc E ((h @ [Run q, Sleep 1]) @ failed_attempts q i) q) \<noteq> 0"
      by (simp add: failed_attempts_Suc)
  qed
  have last: "returncode (proc E ((h @ [Run q, Sleep 1]) @ failed_attempts q j) q) = 0"
    using Suc.prems(5) by (simp add: failed_attempts_Suc)
  have "get_guest_ip_loop E g m' (h @ [Run q, Sleep 1]) =
          (parse_domifaddr (stdout (proc E ((h @ [Run q, Sleep 1]) @ failed_attempts q j) q)),
           (h @ [Run q, Sleep 1]) @ failed_attempts q j @ [Run q])"
    using Suc.prems(6) m
    by (intro Suc.IH [OF Suc.prems(1) Suc.prems(2) Suc.prems(3) later last]) simp
  then show ?case
    using first Suc.prems(1,2,3)
    by (simp add: m priv_virsh_Some [where u = u] failed_attempts_Suc)
qed

lemma count_failed_attempts_run: "count_list (failed_attempts q j) (Run q) = j"
  by (induction j) (simp_all add: failed_attempts_Suc, simp add: failed_attempts_def)

lemma count_failed_attempts_sleep: "count_list (failed_attempts q j) (Sleep 1) = j"
  by (induction j) (simp_all add: failed_attempts_Suc, simp add: failed_attempts_def)

lemma subprocess_run_history:
  "snd (subprocess_run E argv c h) = h @ (if None \<in> set argv then [] else [Run (map the argv)])"
  by (simp add: subprocess_run_def Let_def)

lemma get_guest_ip_loop_bound:
  "\<exists>evs. snd (get_guest_ip_loop E g m h) = h @ evs \<and> length (filter is_run evs) \<le> m"
proof (induction m arbitrary: h)
  case 0
  show ?case by simp
next
  case (Suc m)
  obtain evs where evs: "snd (priv_virsh E g [Some ''domifaddr'', instance_name g] h) = h @ evs"
    and len: "length evs \<le> 1"
    unfolding priv_virsh_def subprocess_run_history by (cases "connection_uri g = None \<or> instance_name g = None") auto
  obtain r where r: "priv_virsh E g [Some ''domifaddr'', instance_name g] h = (r, h @ evs)"
    using evs by (cases "priv_virsh E g [Some ''domifaddr'', instance_name g] h") simp
  from Suc.IH [of "(h @ evs) @ [Sleep 1]"] obtain evs' where
    evs': "snd (get_guest_ip_loop E g m ((h @ evs) @ [Sleep 1])) = ((h @ evs) @ [Sleep 1]) @ evs'"
    and len': "length (filter is_run evs') \<le> m" by blast
  have le: "length (filter is_run evs) \<le> 1"
    using len by (meson le_trans length_filter_le)
  show ?case
  proof (cases r)
    case (Inr cp)
    with r le show ?thesis by (intro exI [of _ evs]) simp
  next
    case (Inl e)
    show ?thesis
    proof (cases "is_CalledProcessError e")
      case True
      with r Inl evs' len' le show ?thesis
        by (intro exI [of _ "evs @ [Sleep 1] @ evs'"]) simp
    next
      case False
      with r Inl le show ?thesis by (intro exI [of _ evs]) simp
    qed
  qed
qed

lemma get_guest_ip_loop_all_fail:
  assumes "connection_uri g = Some u" and "instance_name g = Some n"
    and "q = virsh_cmd u [''domifaddr'', n]"
  shows "\<forall>i<m. returncode (proc E (h @ failed_attempts q i) q) \<noteq> 0 \<Longrightarrow>
           get_guest_ip_loop E g m h = (Inl UnboundLocalError, h @ failed_attempts q m)"
proof (induction m arbitrary: h)
  case 0
  show ?case by (simp add: failed_attempts_def)
next
  case (Suc m)
  from Suc.prems have first: "returncode (proc E h q) \<noteq> 0"
    by (auto simp: failed_attempts_def dest: spec [where x = 0])
  have later: "\<forall>i<m. returncode (proc E ((h @ [Run q, Sleep 1]) @ failed_attempts q i) q) \<noteq> 0"
  proof (intro allI impI)
    fix i assume "i < m"
    then have "Suc i < Suc m" by simp
    with Suc.prems have "returncode (proc E (h @ failed_attempts q (Suc i)) q) \<noteq> 0" by blast
    then show "returncode (proc E ((h @ [Run q, Sleep 1]) @ failed_attempts q i) q) \<noteq> 0"
      by (simp add: failed_attempts_Suc)
  qed
  from Suc.IH [OF later] first assms show ?case
    by (simp add: priv_virsh_Some [where u = u] failed_attempts_Suc)
qed

text \<open>
  C1 (as amended). Whatever the hypervisor answers, the resolver runs at most 10
  commands. It sleeps one second after each address query that exits with a non-zero
  status: when all of the first 10 queries do, it gives up with an error after exactly 10
  queries and 10 sleeps. When the first \<open>k - 1\<close> queries exit non-zero and the \<open>k\<close>-th
  (\<open>k \<le> 10\<close>) exits with zero, it runs exactly \<open>k\<close> queries and \<open>k - 1\<close> sleeps and
  returns what the parse of the \<open>k\<close>-th output gives: the address, or the index error of
  an output too short to parse, which is not retried.
\<close>

theorem get_guest_ip_retries:
  "(\<exists>evs. snd (get_guest_ip E g h) = h @ evs \<and> length (filter is_run evs) \<le> 10) \<and>
   (connection_uri g = Some u \<and> instance_name g = Some n \<and>
    q = virsh_cmd u [''domifaddr'', n] \<and>
    (\<forall>i<10. returncode (proc E (h @ failed_attempts q i) q) \<noteq> 0) \<longrightarrow>
      (\<exists>e. get_guest_ip E g h = (Inl e, h @ failed_attempts q 10)) \<and>
      count_list (failed_attempts q 10) (Run q) = 10 \<and>
      count_list (failed_attempts q 10) (Sleep 1) = 10) \<and>
   (connection_uri g = Some u \<and> instance_name g = Some n \<and>
    q = virsh_cmd u [''domifaddr'', n] \<and> 0 < k \<and> k \<le> 10 \<and>
    (\<forall>i<k - 1. returncode (proc E (h @ failed_attempts q i) q) \<noteq> 0) \<and>
    returncode (proc E (h @ failed_attempts q (k - 1)) q) = 0 \<longrightarrow>
      get_guest_ip E g h =
        (parse_domifaddr (stdout (proc E (h @ failed_attempts q (k - 1)) q)),
         h @ failed_attempts q (k - 1) @ [Run q]) \<and>
      count_list (failed_attempts q (k - 1) @ [Run q]) (Run q) = k \<and>
      count_list (failed_attempts q (k - 1) @ [Run q]) (Sleep 1) = k - 1)"
proof (intro conjI impI)
  show "\<exists>evs. snd (get_guest_ip E g h) = h @ evs \<and> length (filter is_run evs) \<le> 10"
    unfolding get_guest_ip_def by (rule get_guest_ip_loop_bound)
next
  assume a: "connection_uri g = Some u \<and> instance_name g = Some n \<and>
    q = virsh_cmd u [''domifaddr'', n] \<and>
    (\<forall>i<10. returncode (proc E (h @ failed_attempts q i) q) \<noteq> 0)"
  then have u: "connection_uri g = Some u" and n: "instance_name g = Some n"
    and q: "q = virsh_cmd u [''domifaddr'', n]"
    and f: "\<forall>i<10. returncode (proc E (h @ failed_attempts q i) q) \<noteq> 0"
    by blast+
  have "get_guest_ip E g h = (Inl UnboundLocalError, h @ failed_attempts q 10)"
    unfolding get_guest_ip_def by (rule get_guest_ip_loop_all_fail [OF u n q f])
  then show "\<exists>e. get_guest_ip E g h = (Inl e, h @ failed_attempts q 10)" by blast
  show "count_list (failed_attempts q 10) (Run q) = 10" by (rule count_failed_attempts_run)
  show "count_list (failed_attempts q 10) (Sleep 1) = 10" by (rule count_failed_attempts_sleep)
next
  assume a: "connection_uri g = Some u \<and> instance_name g = Some n \<and>
    q = virsh_cmd u [''domifaddr'', n] \<and> 0 < k \<and> k \<le> 10 \<and>
    (\<forall>i<k - 1. returncode (proc E (h @ failed_attempts q i) q) \<noteq> 0) \<and>
    returncode (proc E (h @ failed_attempts q (k - 1)) q) = 0"
  then have u: "connection_uri g = Some u" and n: "instance_name g = Some n"
    and q: "q = virsh_cmd u [''domifaddr'', n]"
    and f: "\<forall>i<k - 1. returncode (proc E (h @ failed_attempts q i) q) \<noteq> 0"
    and z: "returncode (proc E (h @ failed_attempts q (k - 1)) q) = 0"
    and k: "k - 1 < 10"
    by auto
  show "get_guest_ip E g h =
        (parse_domifaddr (stdout (proc E (h @ failed_attempts q (k - 1)) q)),
         h @ failed_attempts q (k - 1) @ [Run q])"
    unfolding get_guest_ip_def by (rule get_guest_ip_loop_attempts [OF u n q f z k])
  show "count_list (failed_attempts q (k - 1) @ [Run q]) (Run q) = k"
    using a by (simp add: count_failed_attempts_run)
  show "count_list (failed_attempts q (k - 1) @ [Run q]) (Sleep 1) = k - 1"
    using count_failed_attempts_sleep [of q "k - 1"] by simp
qed

lemma flaky_proc:
  "proc flaky_env h (virsh_cmd u [''domifaddr'', n]) =
     (if length (filter (earlier ''domifaddr'') h) < 2 then failed else ok domifaddr_table)"
  by (simp add: flaky_env_def scripted_def subcommand_def virsh_cmd_def)

lemma dead_proc: "proc dead_env h (virsh_cmd u [''domifaddr'', n]) = failed"
  by (simp add: dead_env_def scripted_def subcommand_def virsh_cmd_def)

theorem get_guest_ip_retries_witness:
  "get_guest_ip flaky_env handle0 [] =
     (Inr ''192.0.2.5'',
      [Run (virsh_cmd ''qemu:///system'' [''domifaddr'', ''g1'']), Sleep 1,
       Run (virsh_cmd ''qemu:///system'' [''domifaddr'', ''g1'']), Sleep 1,
       Run (virsh_cmd ''qemu:///system'' [''domifaddr'', ''g1''])]) \<and>
   (\<exists>e. get_guest_ip dead_env handle0 [] =
      (Inl e, failed_attempts (virsh_cmd ''qemu:///system'' [''domifaddr'', ''g1'']) 10)) \<and>
   (\<exists>evs. snd (get_guest_ip dead_env handle0 []) = evs \<and> length (filter is_run evs) \<le> 10)"
proof -
  let ?q = "virsh_cmd ''qemu:///system'' [''domifaddr'', ''g1'']"
  have u: "connection_uri handle0 = Some ''qemu:///system''" and n: "instance_name handle0 = Some ''g1''"
    by (simp_all add: handle0_def)
  have fa: "failed_attempts ?q 2 = [Run ?q, Sleep 1, Run ?q, Sleep 1]"
    by (simp add: failed_attempts_def numeral_2_eq_2)
  have sub: "subcommand ?q = ''domifaddr''"
    by (simp add: subcommand_def virsh_cmd_def)
  have a: "\<forall>i<3 - 1. returncode (proc flaky_env ([] @ failed_attempts ?q i) ?q) \<noteq> 0"
  proof (intro allI impI)
    fix i :: nat assume "i < 3 - 1"
    then have "i = 0 \<or> i = 1" by auto
    then show "returncode (proc flaky_env ([] @ failed_attempts ?q i) ?q) \<noteq> 0"
      by (auto simp: flaky_proc failed_attempts_def failed_def sub)
  qed
  have b: "returncode (proc flaky_env ([] @ failed_attempts ?q (3 - 1)) ?q) = 0"
    by (simp add: flaky_proc fa sub ok_def)
  have p: "parse_domifaddr domifaddr_table = Inr ''192.0.2.5''"
    by (simp add: parse_domifaddr_def domifaddr_table_def py_index_def is_linebreak_def is_space_def)
  have c: "\<forall>i<10. returncode (proc dead_env ([] @ failed_attempts ?q i) ?q) \<noteq> 0"
    by (simp add: dead_proc failed_def)
  from get_guest_ip_retries [of flaky_env handle0 "[]" "''qemu:///system''" "''g1''" ?q 3] u n a b
  have "get_guest_ip flaky_env handle0 [] =
          (parse_domifaddr (stdout (proc flaky_env ([] @ failed_attempts ?q (3 - 1)) ?q)),
           [] @ failed_attempts ?q (3 - 1) @ [Run ?q])"
    by simp
  then have first: "get_guest_ip flaky_env handle0 [] =
     (Inr ''192.0.2.5'', [Run ?q, Sleep 1, Run ?q, Sleep 1, Run ?q])"
    by (simp add: flaky_proc fa sub ok_def p)
  from get_guest_ip_retries [of dead_env handle0 "[]" "''qemu:///system''" "''g1''" ?q 1] u n c
  have "\<exists>e. get_guest_ip dead_env handle0 [] = (Inl e, [] @ failed_attempts ?q 10)"
    and "\<exists>evs. snd (get_guest_ip dead_env handle0 []) = [] @ evs \<and> length (filter is_run evs) \<le> 10"
    by blast+
  with first show ?thesis by simp
qed

text \<open>
  C1 as stated fails: an empty output on the first query is not retried, although the
  second query would have given the address. The index error leaves the resolver after
  one query and no sleep.
\<close>

theorem get_guest_ip_short_output_counterexample:
  "get_guest_ip short_env handle0 [] =
     (Inl IndexError, [Run (virsh_cmd ''qemu:///system'' [''domifaddr'', ''g1''])]) \<and>
   fst (get_guest_ip short_env handle0
          [Run (virsh_cmd ''qemu:///system'' [''domifaddr'', ''g1'']), Sleep 1]) = Inr ''192.0.2.5''"
  by (simp add: get_guest_ip_def numeral_eq_Suc priv_virsh_def subprocess_run_def handle0_def
      short_env_def scripted_def subcommand_def virsh_cmd_def ok_def parse_domifaddr_def
      domifaddr_table_def py_index_def is_linebreak_def is_space_def Let_def)

subsection \<open>Stopping and removing\<close>

lemma priv_virsh_None:
  "connection_uri g = None \<or> None \<in> set args \<Longrightarrow> priv_virsh E g args h = (Inl TypeError, h)"
  by (auto simp: priv_virsh_def subprocess_run_def)

lemma py_index_0: "py_index xs 0 = (if xs = [] then Inl IndexError else Inr (hd xs))"
  by (cases xs) (simp_all add: py_index_def)

lemma guest_state_Some:
  assumes "connection_uri g = Some u" and "instance_name g = Some n"
  shows "guest_state E g h =
           (let cp = proc E h (virsh_cmd u [''domstate'', n]) in
            (if returncode cp \<noteq> 0
             then Inl (CalledProcessError (virsh_cmd u [''domstate'', n]) (returncode cp))
             else py_index (splitlines (stdout cp)) 0,
             h @ [Run (virsh_cmd u [''domstate'', n])]))"
  using assms by (simp add: guest_state_def priv_virsh_Some [where u = u] Let_def)

lemma guest_state_None:
  "connection_uri g = None \<or> instance_name g = None \<Longrightarrow> guest_state E g h = (Inl TypeError, h)"
  by (auto simp: guest_state_def priv_virsh_None)

lemma virsh_commands_append [simp]:
  "virsh_commands (a @ b) = virsh_commands a @ virsh_commands b"
  by (simp add: virsh_commands_def)

lemma virsh_commands_Nil [simp]: "virsh_commands [] = []"
  by (simp add: virsh_commands_def)

lemma virsh_commands_run [simp]:
  "virsh_commands (Run (virsh_cmd u (c # args)) # evs) =
     (if c = ''domstate'' then virsh_commands evs else c # virsh_commands evs)"
  by (simp add: virsh_commands_def virsh_cmd_def)

lemma virsh_commands_other [simp]:
  "virsh_commands (Sleep t # evs) = virsh_commands evs"
  "virsh_commands (Info a b c # evs) = virsh_commands evs"
  "virsh_commands (Call k # evs) = virsh_commands evs"
  by (simp_all add: virsh_commands_def)

lemma remove_poll_quiet:
  assumes "connection_uri g = Some u" and "instance_name g = Some n"
  shows "\<exists>evs. snd (remove_poll E g m h) = h @ evs \<and> virsh_commands evs = [] \<and>
           set evs \<subseteq> {Run (virsh_cmd u [''domstate'', n]), Sleep 1}"
proof (induction m arbitrary: h)
  case 0
  show ?case by simp
next
  case (Suc m)
  let ?st = "virsh_cmd u [''domstate'', n]"
  obtain r where r: "guest_state E g h = (r, h @ [Run ?st])"
    using guest_state_Some [OF assms, of E h] by (simp add: Let_def)
  from Suc.IH [of "(h @ [Run ?st]) @ [Sleep 1]"] obtain evs where
    evs: "snd (remove_poll E g m ((h @ [Run ?st]) @ [Sleep 1])) = ((h @ [Run ?st]) @ [Sleep 1]) @ evs"
    and q: "virsh_commands evs = []" and sub: "set evs \<subseteq> {Run ?st, Sleep 1}"
    by blast
  show ?case
  proof (cases r)
    case (Inl e)
    with r show ?thesis by (intro exI [of _ "[Run ?st]"]) simp
  next
    case (Inr s)
    show ?thesis
    proof (cases "s = ''shut off''")
      case True
      with r Inr show ?thesis by (intro exI [of _ "[Run ?st]"]) simp
    next
      case False
      with r Inr evs q sub show ?thesis
        by (intro exI [of _ "Run ?st # Sleep 1 # evs"]) simp
    qed
  qed
qed


lemma remove_poll_ok:
  assumes "connection_uri g = Some u" and "instance_name g = Some n"
    and "st = virsh_cmd u [''domstate'', n]"
    and "\<forall>h'. returncode (proc E h' st) = 0 \<and> splitlines (stdout (proc E h' st)) \<noteq> []"
  shows "fst (remove_poll E g m h) = Inr ()"
proof (induction m arbitrary: h)
  case 0
  show ?case by simp
next
  case (Suc m)
  have "guest_state E g h = (Inr (hd (splitlines (stdout (proc E h st)))), h @ [Run st])"
    using assms(3,4) by (simp add: guest_state_Some [OF assms(1,2)] py_index_0 Let_def)
  then show ?case
    using Suc.IH [of "(h @ [Run st]) @ [Sleep 1]"] by simp
qed



lemma running_proc:
  "proc running_env h (virsh_cmd u (c # args)) = (if c = ''domstate'' then ok ''running\<newline>'' else ok [])"
  by (simp add: running_env_def scripted_def subcommand_def virsh_cmd_def)

lemma splitlines_running: "splitlines ''running\<newline>'' = [''running'']"
  by (simp add: is_linebreak_def)



lemma stop_history:
  "\<exists>evs. snd (stop E g h) = h @ Call Super_stop # evs \<and>
         (virsh_commands evs = [] \<or> virsh_commands evs = [''shutdown''])"
proof (cases "connection_uri g = None \<or> instance_name g = None")
  case True
  then have "priv_virsh E g [Some ''shutdown'', instance_name g] (h @ [Call Super_stop]) =
               (Inl TypeError, h @ [Call Super_stop])"
    by (intro priv_virsh_None) auto
  then show ?thesis
    by (intro exI [of _ "[]"]) (simp add: stop_def call_collab_def split: sum.splits)
next
  case False
  then obtain u n where un: "connection_uri g = Some u" "instance_name g = Some n" by auto
  show ?thesis
  proof (cases "\<exists>e. collab E h Super_stop = Inl e")
    case True
    then show ?thesis
      by (intro exI [of _ "[]"]) (auto simp: stop_def call_collab_def)
  next
    case False
    then obtain b where b: "collab E h Super_stop = Inr b" by (cases "collab E h Super_stop") auto
    show ?thesis
    proof (cases "returncode (proc E (h @ [Call Super_stop]) (virsh_cmd u [''shutdown'', n])) = 0")
      case True
      with un b show ?thesis
        by (intro exI [of _ "[Run (virsh_cmd u [''shutdown'', n]), Info ''guest'' ''stopped'' ''green'']"])
           (simp add: stop_def call_collab_def priv_virsh_Some [where u = u])
    next
      case False
      with un b show ?thesis
        by (intro exI [of _ "[Run (virsh_cmd u [''shutdown'', n])]"])
           (simp add: stop_def call_collab_def priv_virsh_Some [where u = u])
    qed
  qed
qed

lemma stop_returns:
  assumes "stop E g h = (Inr (), h1)"
  shows "\<exists>u n. connection_uri g = Some u \<and> instance_name g = Some n \<and>
           h1 = h @ [Call Super_stop, Run (virsh_cmd u [''shutdown'', n]), Info ''guest'' ''stopped'' ''green'']"
proof (cases "connection_uri g = None \<or> instance_name g = None")
  case True
  then have "priv_virsh E g [Some ''shutdown'', instance_name g] (h @ [Call Super_stop]) =
               (Inl TypeError, h @ [Call Super_stop])"
    by (intro priv_virsh_None) auto
  with assms show ?thesis
    by (simp add: stop_def call_collab_def split: sum.splits)
next
  case False
  then obtain u n where un: "connection_uri g = Some u" "instance_name g = Some n" by auto
  with assms show ?thesis
    by (auto simp: stop_def call_collab_def priv_virsh_Some [where u = u] split: sum.splits if_splits)
qed

lemma remove_running:
  assumes "connection_uri g = Some u" and "instance_name g = Some n"
    and "fst (guest_state E g h) = Inr s" and "s \<noteq> ''shut off''"
    and "remove E g h = (Inr (), h2)"
  shows "\<exists>evs. h2 = h @ evs \<and> virsh_commands evs = [''destroy'', ''undefine'']"
proof -
  let ?st = "virsh_cmd u [''domstate'', n]"
  let ?de = "virsh_cmd u [''destroy'', n]"
  let ?un = "virsh_cmd u [''undefine'', ''--remove-all-storage'', ''--nvram'', ''--tpm'', n]"
  have gs: "guest_state E g h = (Inr s, h @ [Run ?st])"
    using assms(3) guest_state_Some [OF assms(1,2), of E h]
    by (simp add: Let_def)
  obtain evs where evs: "snd (remove_poll E g 10 (h @ [Run ?st, Run ?de])) = (h @ [Run ?st, Run ?de]) @ evs"
    and q: "virsh_commands evs = []"
    using remove_poll_quiet [OF assms(1,2), of E 10 "h @ [Run ?st, Run ?de]"] by blast
  obtain r where rp: "remove_poll E g 10 (h @ [Run ?st, Run ?de]) = (r, (h @ [Run ?st, Run ?de]) @ evs)"
    using evs by (cases "remove_poll E g 10 (h @ [Run ?st, Run ?de])") simp
  have "h2 = h @ (Run ?st # Run ?de # evs @ [Run ?un, Info ''guest'' ''removed'' ''green''])"
    using assms(1,2,4,5) gs rp
    by (auto simp: remove_def priv_virsh_Some [where u = u] undefine_args_def
        split: if_splits sum.splits)
  then show ?thesis using q by (intro exI [of _ "Run ?st # Run ?de # evs @ [Run ?un, Info ''guest'' ''removed'' ''green'']"]) simp
qed

text \<open>
  C8. The first event of \<open>stop\<close> is the stop of the generic SSH guest, and the shutdown
  command is the only hypervisor command that can follow it. When \<open>stop\<close> returns, the
  state query of the following \<open>remove\<close> answers "running" and \<open>remove\<close> returns, the
  hypervisor commands of both calls other than state queries are shutdown, destroy and
  undefine, in that order.
\<close>

theorem stop_then_remove_order:
  "(\<exists>evs. snd (stop E g h) = h @ Call Super_stop # evs \<and>
          (virsh_commands evs = [] \<or> virsh_commands evs = [''shutdown''])) \<and>
   (stop E g h = (Inr (), h1) \<and> fst (guest_state E g h1) = Inr ''running'' \<and>
    remove E g h1 = (Inr (), h2) \<longrightarrow>
      (\<exists>evs. h2 = h @ evs \<and> virsh_commands evs = [''shutdown'', ''destroy'', ''undefine'']))"
proof (intro conjI impI)
  show "\<exists>evs. snd (stop E g h) = h @ Call Super_stop # evs \<and>
          (virsh_commands evs = [] \<or> virsh_commands evs = [''shutdown''])"
    by (rule stop_history)
next
  assume a: "stop E g h = (Inr (), h1) \<and> fst (guest_state E g h1) = Inr ''running'' \<and>
    remove E g h1 = (Inr (), h2)"
  then obtain u n where un: "connection_uri g = Some u" "instance_name g = Some n"
    and h1: "h1 = h @ [Call Super_stop, Run (virsh_cmd u [''shutdown'', n]), Info ''guest'' ''stopped'' ''green'']"
    using stop_returns by blast
  from a obtain evs where "h2 = h1 @ evs" and "virsh_commands evs = [''destroy'', ''undefine'']"
    using remove_running [OF un, of E h1 "''running''" h2] by auto
  then show "\<exists>evs. h2 = h @ evs \<and> virsh_commands evs = [''shutdown'', ''destroy'', ''undefine'']"
    using h1
    by (intro exI [of _ "[Call Super_stop, Run (virsh_cmd u [''shutdown'', n]), Info ''guest'' ''stopped'' ''green''] @ evs"]) simp
qed


theorem stop_then_remove_order_witness:
  "virsh_commands (snd (remove running_env handle0 (snd (stop running_env handle0 [])))) =
     [''shutdown'', ''destroy'', ''undefine'']"
proof -
  let ?h1 = "[Call Super_stop, Run (virsh_cmd ''qemu:///system'' [''shutdown'', ''g1'']),
              Info ''guest'' ''stopped'' ''green'']"
  let ?h2 = "snd (remove running_env handle0 ?h1)"
  have u: "connection_uri handle0 = Some ''qemu:///system''" and n: "instance_name handle0 = Some ''g1''"
    by (simp_all add: handle0_def)
  have c: "collab running_env [] Super_stop = Inr True"
    by (simp add: running_env_def scripted_def)
  have s: "stop running_env handle0 [] = (Inr (), ?h1)"
    by (simp add: stop_def call_collab_def c priv_virsh_Some [where u = "''qemu:///system''"] u n
        running_proc ok_def)
  have gs: "\<And>h. guest_state running_env handle0 h =
               (Inr ''running'', h @ [Run (virsh_cmd ''qemu:///system'' [''domstate'', ''g1''])])"
    by (simp add: guest_state_Some [OF u n] running_proc ok_def py_index_0 is_linebreak_def)
  have p: "\<And>h. fst (remove_poll running_env handle0 10 h) = Inr ()"
    by (rule remove_poll_ok [OF u n refl]) (simp add: running_proc ok_def is_linebreak_def)
  have r: "fst (remove running_env handle0 ?h1) = Inr ()"
    using p [of "?h1 @ [Run (virsh_cmd ''qemu:///system'' [''domstate'', ''g1'']),
                        Run (virsh_cmd ''qemu:///system'' [''destroy'', ''g1''])]"]
    by (auto simp: remove_def gs priv_virsh_Some [where u = "''qemu:///system''"] u n
        running_proc ok_def undefine_args_def split: prod.splits sum.splits)
  then have r': "remove running_env handle0 ?h1 = (Inr (), ?h2)"
    by (cases "remove running_env handle0 ?h1") simp
  from stop_then_remove_order [of running_env handle0 "[]" ?h1 ?h2] s gs r'
  obtain evs where "?h2 = [] @ evs" and "virsh_commands evs = [''shutdown'', ''destroy'', ''undefine'']"
    by auto
  then show ?thesis using s by simp
qed

subsection \<open>The key-pair\<close>

lemma subprocess_run_Some:
  "subprocess_run E (map Some cmd) c h =
     (if c \<and> returncode (proc E h cmd) \<noteq> 0 then Inl (CalledProcessError cmd (returncode (proc E h cmd)))
      else Inr (proc E h cmd), h @ [Run cmd])"
  by (simp add: subprocess_run_def Let_def comp_def image_iff)

lemma generate_recorded:
  "key g \<noteq> [] \<Longrightarrow> priv_generate_ssh_key E g h = (Inr (), g, h)"
  by (simp add: priv_generate_ssh_key_def)

lemma generate_fresh:
  assumes "key g = []"
  shows "priv_generate_ssh_key E g h =
           (if returncode (proc E h (keygen_cmd (path_join (workdir g) ''ssh_key''))) \<noteq> 0
            then Inl (CalledProcessError (keygen_cmd (path_join (workdir g) ''ssh_key''))
                        (returncode (proc E h (keygen_cmd (path_join (workdir g) ''ssh_key'')))))
            else Inr (),
            g\<lparr>key := [path_join (workdir g) ''ssh_key'']\<rparr>,
            h @ [Run (keygen_cmd (path_join (workdir g) ''ssh_key''))])"
  using assms subprocess_run_Some [of E "keygen_cmd (path_join (workdir g) ''ssh_key'')" True h]
  by (simp add: priv_generate_ssh_key_def py_index_0 keygen_cmd_def Let_def)

lemma ssh_pubkey_recorded:
  assumes "key g \<noteq> []"
  shows "ssh_pubkey E g h =
           (Inr (rstrip_nl (stdout (proc E h (derive_cmd (hd (key g)))))), g,
            h @ [Run (derive_cmd (hd (key g)))])"
  using assms subprocess_run_Some [of E "derive_cmd (hd (key g))" False h]
  by (simp add: ssh_pubkey_def generate_recorded py_index_0 derive_cmd_def)

lemma ssh_pubkey_fresh:
  assumes "key g = []" and "k = path_join (workdir g) ''ssh_key''"
    and "returncode (proc E h (keygen_cmd k)) = 0"
  shows "ssh_pubkey E g h =
           (Inr (rstrip_nl (stdout (proc E (h @ [Run (keygen_cmd k)]) (derive_cmd k)))),
            g\<lparr>key := [k]\<rparr>, h @ [Run (keygen_cmd k), Run (derive_cmd k)])"
  using assms subprocess_run_Some [of E "derive_cmd k" False "h @ [Run (keygen_cmd k)]"]
  by (simp add: ssh_pubkey_def generate_fresh py_index_0 derive_cmd_def)

lemma ssh_pubkey_cases:
  assumes "ssh_pubkey E g h = (r, g1, h1)"
  shows "(key g \<noteq> [] \<and> g1 = g \<and> h1 = h @ [Run (derive_cmd (hd (key g)))]) \<or>
         (key g = [] \<and> g1 = g\<lparr>key := [path_join (workdir g) ''ssh_key'']\<rparr> \<and>
          (h1 = h @ [Run (keygen_cmd (path_join (workdir g) ''ssh_key''))] \<or>
           h1 = h @ [Run (keygen_cmd (path_join (workdir g) ''ssh_key'')),
                     Run (derive_cmd (path_join (workdir g) ''ssh_key''))]))"
proof (cases "key g = []")
  case False
  with assms show ?thesis by (auto simp: ssh_pubkey_recorded)
next
  case True
  let ?k = "path_join (workdir g) ''ssh_key''"
  show ?thesis
  proof (cases "returncode (proc E h (keygen_cmd ?k)) = 0")
    case False
    with assms True show ?thesis
      by (simp add: ssh_pubkey_def generate_fresh)
  next
    case z: True
    with assms True subprocess_run_Some [of E "derive_cmd ?k" False "h @ [Run (keygen_cmd ?k)]"]
    show ?thesis
      by (auto simp: ssh_pubkey_def generate_fresh py_index_0 derive_cmd_def)
  qed
qed

lemma take_key_cmds [simp]:
  "take 2 (keygen_cmd k) = [''ssh-keygen'', ''-f'']" "take 2 (derive_cmd k) = [''ssh-keygen'', ''-y'']"
  "take 1 (keygen_cmd k) = [''ssh-keygen'']" "take 1 (derive_cmd k) = [''ssh-keygen'']"
  by (simp_all add: keygen_cmd_def derive_cmd_def)

lemma ssh_pubkey_calls_recorded:
  "key g \<noteq> [] \<Longrightarrow>
     \<exists>evs. ssh_pubkey_calls E n g h = (g, h @ evs) \<and> filter is_keygen evs = []"
proof (induction n arbitrary: h)
  case 0
  show ?case by simp
next
  case (Suc n)
  from Suc.IH [OF Suc.prems, of "h @ [Run (derive_cmd (hd (key g)))]"] obtain evs where
    "ssh_pubkey_calls E n g (h @ [Run (derive_cmd (hd (key g)))]) = (g, (h @ [Run (derive_cmd (hd (key g)))]) @ evs)"
    and "filter is_keygen evs = []" by blast
  then show ?case using Suc.prems
    by (intro exI [of _ "Run (derive_cmd (hd (key g))) # evs"]) (simp add: ssh_pubkey_recorded)
qed

lemma ssh_pubkey_calls_once:
  "\<exists>evs. snd (ssh_pubkey_calls E n g h) = h @ evs \<and> length (filter is_keygen evs) \<le> 1"
proof (cases n)
  case 0
  then show ?thesis by simp
next
  case (Suc m)
  obtain r g1 h1 where first: "ssh_pubkey E g h = (r, g1, h1)"
    by (cases "ssh_pubkey E g h") auto
  from ssh_pubkey_cases [OF first] obtain evs1 where h1: "h1 = h @ evs1"
    and l1: "length (filter is_keygen evs1) \<le> 1" and k1: "key g1 \<noteq> []"
    by (elim disjE conjE) auto
  from ssh_pubkey_calls_recorded [OF k1, of E m h1] obtain evs where
    "ssh_pubkey_calls E m g1 h1 = (g1, h1 @ evs)" and "filter is_keygen evs = []" by blast
  then show ?thesis using Suc first h1 l1
    by (intro exI [of _ "evs1 @ evs"]) simp
qed

text \<open>
  C9. With a key recorded, generation is skipped: no command runs and the handle is
  unchanged. However often the public-key accessor is read in a row, the generating
  command appears at most once in the history. After any read a key is recorded, and
  every later read, from any history, leaves the handle unchanged, runs only the
  derivation command on that same recorded key and returns its output without the
  trailing newlines.
\<close>

theorem ssh_key_generated_once:
  "(key g \<noteq> [] \<longrightarrow> priv_generate_ssh_key E g h = (Inr (), g, h)) \<and>
   (\<exists>evs. snd (ssh_pubkey_calls E n g h) = h @ evs \<and> length (filter is_keygen evs) \<le> 1) \<and>
   (ssh_pubkey E g h = (r, g1, h1) \<longrightarrow>
      key g1 \<noteq> [] \<and>
      (\<forall>h'. ssh_pubkey E g1 h' =
              (Inr (rstrip_nl (stdout (proc E h' (derive_cmd (hd (key g1)))))), g1,
               h' @ [Run (derive_cmd (hd (key g1)))])))"
proof (intro conjI impI)
  assume "key g \<noteq> []"
  then show "priv_generate_ssh_key E g h = (Inr (), g, h)" by (rule generate_recorded)
next
  show "\<exists>evs. snd (ssh_pubkey_calls E n g h) = h @ evs \<and> length (filter is_keygen evs) \<le> 1"
    by (rule ssh_pubkey_calls_once)
next
  assume a: "ssh_pubkey E g h = (r, g1, h1)"
  from ssh_pubkey_cases [OF a] show k: "key g1 \<noteq> []" by auto
  show "\<forall>h'. ssh_pubkey E g1 h' =
              (Inr (rstrip_nl (stdout (proc E h' (derive_cmd (hd (key g1)))))), g1,
               h' @ [Run (derive_cmd (hd (key g1)))])"
    using k by (simp add: ssh_pubkey_recorded)
qed

lemma key_proc: "proc key_env h (derive_cmd k) = ok ''ssh-ed25519 AAAA\<newline>''"
  "proc key_env h (keygen_cmd k) = ok ''ssh-ed25519 AAAA\<newline>''"
  by (simp_all add: key_env_def scripted_def subcommand_def derive_cmd_def keygen_cmd_def)

theorem ssh_key_generated_once_witness:
  "ssh_pubkey key_env handle0 [] =
     (Inr ''ssh-ed25519 AAAA'', handle0\<lparr>key := [''/w/ssh_key'']\<rparr>,
      [Run (keygen_cmd ''/w/ssh_key''), Run (derive_cmd ''/w/ssh_key'')]) \<and>
   priv_generate_ssh_key key_env (handle0\<lparr>key := [''/w/ssh_key'']\<rparr>) [] =
     (Inr (), handle0\<lparr>key := [''/w/ssh_key'']\<rparr>, []) \<and>
   ssh_pubkey key_env (handle0\<lparr>key := [''/w/ssh_key'']\<rparr>) [Sleep 1] =
     (Inr ''ssh-ed25519 AAAA'', handle0\<lparr>key := [''/w/ssh_key'']\<rparr>,
      [Sleep 1, Run (derive_cmd ''/w/ssh_key'')]) \<and>
   (\<exists>evs. snd (ssh_pubkey_calls key_env 3 handle0 []) = evs \<and> length (filter is_keygen evs) \<le> 1)"
proof -
  let ?g1 = "handle0\<lparr>key := [''/w/ssh_key'']\<rparr>"
  have first: "ssh_pubkey key_env handle0 [] =
     (Inr ''ssh-ed25519 AAAA'', ?g1, [Run (keygen_cmd ''/w/ssh_key''), Run (derive_cmd ''/w/ssh_key'')])"
    using ssh_pubkey_fresh [of handle0 "''/w/ssh_key''" key_env "[]"]
    by (simp add: handle0_def path_join_def key_proc ok_def rstrip_nl_def)
  have k: "key ?g1 \<noteq> []" by simp
  from ssh_key_generated_once [of ?g1 key_env "[]" 0 "Inr ''x''" ?g1 "[]"] k
  have a: "priv_generate_ssh_key key_env ?g1 [] = (Inr (), ?g1, [])" by blast
  from ssh_key_generated_once [of handle0 key_env "[]" 3 "Inr ''ssh-ed25519 AAAA''" ?g1
      "[Run (keygen_cmd ''/w/ssh_key''), Run (derive_cmd ''/w/ssh_key'')]"] first
  have b: "\<exists>evs. snd (ssh_pubkey_calls key_env 3 handle0 []) = [] @ evs \<and> length (filter is_keygen evs) \<le> 1"
    and c: "\<forall>h'. ssh_pubkey key_env ?g1 h' =
              (Inr (rstrip_nl (stdout (proc key_env h' (derive_cmd (hd (key ?g1)))))), ?g1,
               h' @ [Run (derive_cmd (hd (key ?g1)))])"
    by blast+
  from c have "ssh_pubkey key_env ?g1 [Sleep 1] =
     (Inr ''ssh-ed25519 AAAA'', ?g1, [Sleep 1, Run (derive_cmd ''/w/ssh_key'')])"
    by (simp add: key_proc ok_def rstrip_nl_def)
  with first a b show ?thesis by simp
qed

subsection \<open>Installation\<close>

lemma installs_append [simp]: "installs (a @ b) = installs a + installs b"
  by (simp add: installs_def)

lemma installs_simps [simp]:
  "installs [] = 0"
  "installs (Run (virsh_cmd u args) # evs) = installs evs"
  "installs (Run (keygen_cmd k) # evs) = installs evs"
  "installs (Run (derive_cmd k) # evs) = installs evs"
  "installs (Verbose a b c # evs) = installs evs"
  "installs (Info a b c # evs) = installs evs"
  "installs (OpenW p # evs) = installs evs"
  "installs (WriteFile p t # evs) = installs evs"
  by (simp_all add: installs_def virsh_cmd_def keygen_cmd_def derive_cmd_def)

lemma installs_virt_install [simp]:
  "installs (Run (map the (virt_install_cmd g p)) # evs) = Suc (installs evs)"
  by (simp add: installs_def virt_install_cmd_def)

lemma guest_state_installs: "installs (snd (guest_state E g h)) = installs h"
proof (cases "connection_uri g = None \<or> instance_name g = None")
  case True
  then show ?thesis by (simp add: guest_state_None)
next
  case False
  then obtain u n where "connection_uri g = Some u" "instance_name g = Some n" by auto
  then show ?thesis by (simp add: guest_state_Some [where u = u and n = n] Let_def)
qed

lemma priv_kickstart_cases:
  assumes "priv_kickstart E g h = (r, g1, h1)"
  shows "installs h1 = installs h \<and> instance_name g1 = instance_name g \<and>
         connection_uri g1 = connection_uri g \<and> hardware g1 = hardware g"
proof -
  obtain r' where "ssh_pubkey E g h = (r', g1, h1)"
    using assms by (auto simp: priv_kickstart_def split: prod.splits sum.splits)
  from ssh_pubkey_cases [OF this] show ?thesis by auto
qed

lemma subprocess_run_Inr:
  "subprocess_run E argv c h = (Inr cp, h') \<Longrightarrow> h' = h @ [Run (map the argv)]"
  by (auto simp: subprocess_run_def Let_def split: if_splits)

lemma priv_install_defined:
  "guest_state E g h = (Inr s, hq) \<Longrightarrow> priv_install E g h = (Inr (), g, hq)"
  by (simp add: priv_install_def)

lemma priv_install_undefined:
  assumes "guest_state E g h = (Inl (CalledProcessError c rc), hq)"
    and "p = path_join (workdir g) ''ks.cfg''"
    and "priv_kickstart E g (hq @ [Verbose ''progress'' ''preparing for installation...'' ''cyan'', OpenW p])
           = (rk, gk, hk)"
  shows "priv_install E g h =
           (case rk of
              Inl e \<Rightarrow> (Inl e, gk, hk)
            | Inr ks \<Rightarrow>
                if truthy (hardware g) then (Inl AssertionError, gk, hk @ [WriteFile p ks])
                else (case subprocess_run E (virt_install_cmd gk p) True
                             (hk @ [WriteFile p ks, Info ''progress'' ''installing...'' ''cyan'']) of
                        (Inl e, h5) \<Rightarrow> (Inl e, gk, h5)
                      | (Inr cp, h5) \<Rightarrow> (Inr (), gk, h5)))"
  using assms by (simp add: priv_install_def Let_def split: sum.splits)

lemma priv_install_installs:
  assumes "priv_install E g h = (r, g', h')"
  shows "installs h' \<le> installs h + 1 \<and> instance_name g' = instance_name g \<and>
         (truthy (hardware g) \<longrightarrow> installs h' = installs h) \<and>
         ((\<exists>c rc hq. guest_state E g h = (Inl (CalledProcessError c rc), hq)) \<and> r = Inr () \<longrightarrow>
            installs h' = installs h + 1)"
proof -
  obtain rq hq where gs: "guest_state E g h = (rq, hq)" by (cases "guest_state E g h") auto
  have iq: "installs hq = installs h" using guest_state_installs [of E g h] gs by simp
  show ?thesis
  proof (cases rq)
    case (Inr s)
    with gs assms iq show ?thesis by (auto simp: priv_install_defined)
  next
    case (Inl e)
    show ?thesis
    proof (cases e)
      case (CalledProcessError c rc)
      let ?p = "path_join (workdir g) ''ks.cfg''"
      let ?h2 = "hq @ [Verbose ''progress'' ''preparing for installation...'' ''cyan'', OpenW ?p]"
      obtain rk gk hk where ks: "priv_kickstart E g ?h2 = (rk, gk, hk)"
        by (cases "priv_kickstart E g ?h2") auto
      from priv_kickstart_cases [OF ks] iq have ik: "installs hk = installs h"
        and nk: "instance_name gk = instance_name g" by simp_all
      note eq = priv_install_undefined [OF gs [unfolded Inl CalledProcessError] refl ks]
      show ?thesis
      proof (cases rk)
        case (Inl e')
        with eq assms ik nk show ?thesis by auto
      next
        case (Inr kstext)
        show ?thesis
        proof (cases "truthy (hardware g)")
          case True
          with eq Inr assms ik nk show ?thesis by auto
        next
          case False
          let ?h4 = "hk @ [WriteFile ?p kstext, Info ''progress'' ''installing...'' ''cyan'']"
          obtain rv hv where sr: "subprocess_run E (virt_install_cmd gk ?p) True ?h4 = (rv, hv)"
            by (cases "subprocess_run E (virt_install_cmd gk ?p) True ?h4") auto
          have hv: "hv = ?h4 @ (if None \<in> set (virt_install_cmd gk ?p) then []
                                  else [Run (map the (virt_install_cmd gk ?p))])"
            using subprocess_run_history [of E "virt_install_cmd gk ?p" True ?h4] sr by simp
          show ?thesis
          proof (cases rv)
            case (Inl e')
            with eq Inr False sr assms have "r = Inl e'" "g' = gk" "h' = hv" by auto
            then show ?thesis using hv ik nk False by auto
          next
            case r2: (Inr cp)
            with eq Inr False sr assms have res: "r = Inr ()" "g' = gk" "h' = hv" by auto
            from sr r2 have "hv = ?h4 @ [Run (map the (virt_install_cmd gk ?p))]"
              using subprocess_run_Inr by blast
            then show ?thesis using res ik nk False by auto
          qed
        qed
      qed
    qed (use Inl gs assms iq in \<open>auto simp: priv_install_def\<close>)
  qed
qed

text \<open>
  C2. When the state query after a first \<open>priv_install\<close> succeeds (the domain is
  defined), a second \<open>priv_install\<close> returns after that query alone, without an install
  command. The identity is the same in both calls and the first call ran the install
  command at most once; when the first call found no domain and returned, both calls
  together ran it exactly once.
\<close>

theorem install_at_most_once:
  assumes "priv_install E g h = (r1, g1, h1)" and "guest_state E g1 h1 = (Inr s, h2)"
  shows "priv_install E g1 h1 = (Inr (), g1, h2) \<and> installs h2 = installs h1 \<and>
         instance_name g1 = instance_name g \<and> installs h1 \<le> installs h + 1 \<and>
         ((\<exists>c rc hq. guest_state E g h = (Inl (CalledProcessError c rc), hq)) \<and> r1 = Inr () \<longrightarrow>
            installs h2 = installs h + 1)"
proof -
  have "installs h2 = installs h1"
    using guest_state_installs [of E g1 h1] assms(2) by simp
  with priv_install_installs [OF assms(1)] priv_install_defined [OF assms(2)]
  show ?thesis by simp
qed

text \<open>
  C3 (as amended). With a non-empty hardware requirement \<open>priv_install\<close> never runs the
  install command. The check comes after the state query: when the domain exists the
  call returns without an error, and when the query fails with a non-zero exit status
  and the kickstart is rendered, the call raises the assertion error after the key
  commands and after the kickstart file is written.
\<close>

theorem install_hardware_check:
  assumes "truthy (hardware g)" and "priv_install E g h = (r, g', h')"
  shows "installs h' = installs h \<and>
         (\<forall>s hq. guest_state E g h = (Inr s, hq) \<longrightarrow> r = Inr () \<and> g' = g \<and> h' = hq) \<and>
         (\<forall>c rc hq ks gk hk.
            guest_state E g h = (Inl (CalledProcessError c rc), hq) \<and>
            priv_kickstart E g
              (hq @ [Verbose ''progress'' ''preparing for installation...'' ''cyan'',
                     OpenW (path_join (workdir g) ''ks.cfg'')]) = (Inr ks, gk, hk) \<longrightarrow>
            r = Inl AssertionError \<and> g' = gk \<and>
            h' = hk @ [WriteFile (path_join (workdir g) ''ks.cfg'') ks])"
proof (intro conjI allI impI)
  show "installs h' = installs h"
    using priv_install_installs [OF assms(2)] assms(1) by simp
next
  fix s hq assume "guest_state E g h = (Inr s, hq)"
  from priv_install_defined [OF this] assms(2)
  show "r = Inr ()" "g' = g" "h' = hq" by simp_all
next
  fix c rc hq ks gk hk
  assume a: "guest_state E g h = (Inl (CalledProcessError c rc), hq) \<and>
            priv_kickstart E g
              (hq @ [Verbose ''progress'' ''preparing for installation...'' ''cyan'',
                     OpenW (path_join (workdir g) ''ks.cfg'')]) = (Inr ks, gk, hk)"
  from priv_install_undefined [OF conjunct1 [OF a] refl conjunct2 [OF a]] assms
  show "r = Inl AssertionError" "g' = gk" "h' = hk @ [WriteFile (path_join (workdir g) ''ks.cfg'') ks]"
    by simp_all
qed

text \<open>
  C3 as stated fails: with a hardware requirement and an existing domain the call
  queries the hypervisor and returns without any error.
\<close>

theorem install_hardware_counterexample:
  "truthy (hardware hw_handle) \<and>
   priv_install running_env hw_handle [] =
     (Inr (), hw_handle, [Run (virsh_cmd ''qemu:///system'' [''domstate'', ''g1''])])"
proof -
  have u: "connection_uri hw_handle = Some ''qemu:///system''" and n: "instance_name hw_handle = Some ''g1''"
    by (simp_all add: hw_handle_def handle0_def)
  have "guest_state running_env hw_handle [] =
          (Inr ''running'', [Run (virsh_cmd ''qemu:///system'' [''domstate'', ''g1''])])"
    by (simp add: guest_state_Some [OF u n] running_proc ok_def py_index_0 is_linebreak_def)
  from priv_install_defined [OF this] show ?thesis
    by (simp add: hw_handle_def truthy_def)
qed


lemma subcommand_simps [simp]:
  "subcommand (virsh_cmd u (c # args)) = c"
  "subcommand (keygen_cmd k) = ''ssh-keygen''"
  "subcommand (derive_cmd k) = ''ssh-keygen''"
  "subcommand (map the (virt_install_cmd g p)) = ''virt-install''"
  by (simp_all add: subcommand_def virsh_cmd_def keygen_cmd_def derive_cmd_def virt_install_cmd_def)

lemma fresh_proc:
  "proc fresh_env h (virsh_cmd u [''domstate'', n]) =
     (if length (filter (earlier ''domstate'') h) = 0 then failed
      else if length (filter (earlier ''domstate'') h) = 1 then ok ''shut off\<newline>''
      else ok ''running\<newline>'')"
  "proc fresh_env h (keygen_cmd k) = ok ''ssh-ed25519 AAAA\<newline>''"
  "proc fresh_env h (derive_cmd k) = ok ''ssh-ed25519 AAAA\<newline>''"
  "proc fresh_env h (map the (virt_install_cmd g p)) = ok []"
  by (simp_all add: fresh_env_def scripted_def subcommand_def virsh_cmd_def keygen_cmd_def
      derive_cmd_def virt_install_cmd_def)

lemma fresh_kickstart:
  assumes "key g = []" and "workdir g = ''/w''" and "user g = Some ''root''" and "kickstart g = []"
  shows "priv_kickstart fresh_env g h =
           (Inr (KICKSTART_TEMPLATE ''root'' ''ssh-ed25519 AAAA'' [] [] []),
            g\<lparr>key := [''/w/ssh_key'']\<rparr>,
            h @ [Run (keygen_cmd ''/w/ssh_key''), Run (derive_cmd ''/w/ssh_key'')])"
  using assms ssh_pubkey_fresh [of g "''/w/ssh_key''" fresh_env h]
  by (simp add: priv_kickstart_def path_join_def fresh_proc ok_def rstrip_nl_def str_of_def
      template_item_def)

theorem install_hardware_check_witness:
  "priv_install fresh_env hw_handle [] =
     (Inl AssertionError, hw_handle\<lparr>key := [''/w/ssh_key'']\<rparr>,
      [Run (virsh_cmd ''qemu:///system'' [''domstate'', ''g1'']),
       Verbose ''progress'' ''preparing for installation...'' ''cyan'',
       OpenW ''/w/ks.cfg'',
       Run (keygen_cmd ''/w/ssh_key''), Run (derive_cmd ''/w/ssh_key''),
       WriteFile ''/w/ks.cfg'' (KICKSTART_TEMPLATE ''root'' ''ssh-ed25519 AAAA'' [] [] [])]) \<and>
   installs (snd (snd (priv_install fresh_env hw_handle []))) = 0"
proof -
  let ?st = "virsh_cmd ''qemu:///system'' [''domstate'', ''g1'']"
  have u: "connection_uri hw_handle = Some ''qemu:///system''" and n: "instance_name hw_handle = Some ''g1''"
    by (simp_all add: hw_handle_def handle0_def)
  have t: "truthy (hardware hw_handle)" by (simp add: hw_handle_def truthy_def)
  have w: "path_join (workdir hw_handle) ''ks.cfg'' = ''/w/ks.cfg''"
    by (simp add: hw_handle_def handle0_def path_join_def)
  have gs: "guest_state fresh_env hw_handle [] = (Inl (CalledProcessError ?st 1), [Run ?st])"
    by (simp add: guest_state_Some [OF u n] fresh_proc failed_def)
  have ks: "priv_kickstart fresh_env hw_handle
              ([Run ?st] @ [Verbose ''progress'' ''preparing for installation...'' ''cyan'',
                            OpenW (path_join (workdir hw_handle) ''ks.cfg'')]) =
              (Inr (KICKSTART_TEMPLATE ''root'' ''ssh-ed25519 AAAA'' [] [] []),
               hw_handle\<lparr>key := [''/w/ssh_key'']\<rparr>,
               ([Run ?st] @ [Verbose ''progress'' ''preparing for installation...'' ''cyan'',
                             OpenW (path_join (workdir hw_handle) ''ks.cfg'')]) @
               [Run (keygen_cmd ''/w/ssh_key''), Run (derive_cmd ''/w/ssh_key'')])"
    by (rule fresh_kickstart) (simp_all add: hw_handle_def handle0_def)
  obtain r g' h' where p: "priv_install fresh_env hw_handle [] = (r, g', h')"
    by (cases "priv_install fresh_env hw_handle []") auto
  from install_hardware_check [OF t p] gs ks
  have "installs h' = installs []" and "r = Inl AssertionError"
    and "g' = hw_handle\<lparr>key := [''/w/ssh_key'']\<rparr>"
    and "h' = (([Run ?st] @ [Verbose ''progress'' ''preparing for installation...'' ''cyan'',
                             OpenW (path_join (workdir hw_handle) ''ks.cfg'')]) @
               [Run (keygen_cmd ''/w/ssh_key''), Run (derive_cmd ''/w/ssh_key'')]) @
              [WriteFile (path_join (workdir hw_handle) ''ks.cfg'')
                 (KICKSTART_TEMPLATE ''root'' ''ssh-ed25519 AAAA'' [] [] [])]"
    by blast+
  with p w show ?thesis by simp
qed

lemma fresh_install:
  assumes "length (filter (earlier ''domstate'') h) = 0"
  shows "priv_install fresh_env handle0 h =
     (Inr (), handle0\<lparr>key := [''/w/ssh_key'']\<rparr>,
      h @
      [Run (virsh_cmd ''qemu:///system'' [''domstate'', ''g1'']),
       Verbose ''progress'' ''preparing for installation...'' ''cyan'',
       OpenW ''/w/ks.cfg'',
       Run (keygen_cmd ''/w/ssh_key''), Run (derive_cmd ''/w/ssh_key''),
       WriteFile ''/w/ks.cfg'' (KICKSTART_TEMPLATE ''root'' ''ssh-ed25519 AAAA'' [] [] []),
       Info ''progress'' ''installing...'' ''cyan'',
       Run (map the (virt_install_cmd (handle0\<lparr>key := [''/w/ssh_key'']\<rparr>) ''/w/ks.cfg''))])"
proof -
  let ?st = "virsh_cmd ''qemu:///system'' [''domstate'', ''g1'']"
  let ?g1 = "handle0\<lparr>key := [''/w/ssh_key'']\<rparr>"
  have u: "connection_uri handle0 = Some ''qemu:///system''" and n: "instance_name handle0 = Some ''g1''"
    by (simp_all add: handle0_def)
  have t: "\<not> truthy (hardware handle0)" by (simp add: handle0_def truthy_def)
  have w: "path_join (workdir handle0) ''ks.cfg'' = ''/w/ks.cfg''"
    by (simp add: handle0_def path_join_def)
  have gs: "guest_state fresh_env handle0 h = (Inl (CalledProcessError ?st 1), h @ [Run ?st])"
    using assms by (simp add: guest_state_Some [OF u n] fresh_proc failed_def)
  have ks: "priv_kickstart fresh_env handle0
              ((h @ [Run ?st]) @ [Verbose ''progress'' ''preparing for installation...'' ''cyan'',
                            OpenW ''/w/ks.cfg'']) =
              (Inr (KICKSTART_TEMPLATE ''root'' ''ssh-ed25519 AAAA'' [] [] []), ?g1,
               ((h @ [Run ?st]) @ [Verbose ''progress'' ''preparing for installation...'' ''cyan'',
                             OpenW ''/w/ks.cfg'']) @
               [Run (keygen_cmd ''/w/ssh_key''), Run (derive_cmd ''/w/ssh_key'')])"
    by (rule fresh_kickstart) (simp_all add: handle0_def)
  have all: "None \<notin> set (virt_install_cmd ?g1 ''/w/ks.cfg'')"
    by (simp add: virt_install_cmd_def handle0_def)
  have run: "\<And>h. subprocess_run fresh_env (virt_install_cmd ?g1 ''/w/ks.cfg'') True h =
                 (Inr (ok []), h @ [Run (map the (virt_install_cmd ?g1 ''/w/ks.cfg''))])"
    using all by (simp add: subprocess_run_def Let_def fresh_proc ok_def)
  from priv_install_undefined [OF gs w [symmetric] ks] t show ?thesis
    by (simp add: run)
qed

theorem install_at_most_once_witness:
  "installs (snd (snd (priv_install fresh_env handle0 []))) = 1 \<and>
   installs (snd (snd (priv_install fresh_env (fst (snd (priv_install fresh_env handle0 [])))
                         (snd (snd (priv_install fresh_env handle0 [])))))) = 1"
proof -
  let ?st = "virsh_cmd ''qemu:///system'' [''domstate'', ''g1'']"
  let ?g1 = "handle0\<lparr>key := [''/w/ssh_key'']\<rparr>"
  let ?h1 = "snd (snd (priv_install fresh_env handle0 []))"
  have u: "connection_uri handle0 = Some ''qemu:///system''" and n: "instance_name handle0 = Some ''g1''"
    and u1: "connection_uri ?g1 = Some ''qemu:///system''" and n1: "instance_name ?g1 = Some ''g1''"
    by (simp_all add: handle0_def)
  have g0: "guest_state fresh_env handle0 [] = (Inl (CalledProcessError ?st 1), [Run ?st])"
    by (simp add: guest_state_Some [OF u n] fresh_proc failed_def)
  have first: "priv_install fresh_env handle0 [] = (Inr (), ?g1, ?h1)"
    by (simp add: fresh_install)
  have gs: "guest_state fresh_env ?g1 ?h1 = (Inr ''shut off'', ?h1 @ [Run ?st])"
    by (simp add: fresh_install guest_state_Some [OF u1 n1] fresh_proc ok_def py_index_0
        is_linebreak_def)
  from install_at_most_once [OF first gs] g0
  have "priv_install fresh_env ?g1 ?h1 = (Inr (), ?g1, ?h1 @ [Run ?st])"
    and "installs (?h1 @ [Run ?st]) = installs ?h1"
    and "installs (?h1 @ [Run ?st]) = installs [] + 1"
    by blast+
  then have "installs ?h1 = 1"
    and "installs (snd (snd (priv_install fresh_env ?g1 ?h1))) = 1"
    by simp_all
  moreover have "fst (snd (priv_install fresh_env handle0 [])) = ?g1"
    by (simp add: fresh_install)
  ultimately show ?thesis by (simp only: simp_thms)
qed

subsection \<open>The resolved address\<close>

lemma py_index_last: "py_index xs (- 1) = (if xs = [] then Inl IndexError else Inr (last xs))"
proof (cases "xs = []")
  case True
  then show ?thesis by (simp add: py_index_def)
next
  case False
  then have "nat (int (length xs) - 1) = length xs - 1" by (cases xs) auto
  with False show ?thesis by (simp add: py_index_def last_conv_nth)
qed

lemma py_index_last_but_one:
  "py_index xs (- 2) = (if length xs < 2 then Inl IndexError else Inr (xs ! (length xs - 2)))"
proof (cases "length xs < 2")
  case True
  then show ?thesis by (simp add: py_index_def)
next
  case False
  then have "nat (int (length xs) - 2) = length xs - 2" by linarith
  with False show ?thesis by (simp add: py_index_def)
qed

lemma split_sep_hd: "split_sep s x \<noteq> [] \<and> hd (split_sep s x) = takeWhile (\<lambda>c. c \<noteq> s) x"
  by (induction x) (auto split: list.splits)

lemma parse_domifaddr_eq:
  "parse_domifaddr out =
     (if length (splitlines out) < 2 then Inl IndexError
      else if split_ws (splitlines out ! (length (splitlines out) - 2)) = [] then Inl IndexError
      else Inr (takeWhile (\<lambda>c. c \<noteq> CHR ''/'')
                  (last (split_ws (splitlines out ! (length (splitlines out) - 2))))))"
  using split_sep_hd
  by (simp add: parse_domifaddr_def py_index_last_but_one py_index_last py_index_0)

lemma split_ws_word:
  assumes "w \<noteq> []" and "\<forall>c\<in>set w. \<not> is_space c"
  shows "split_ws w = [w]"
proof -
  obtain c cs where w: "w = c # cs" using assms(1) by (cases w) auto
  with assms(2) have t: "takeWhile (\<lambda>x. \<not> is_space x) cs = cs"
    and d: "dropWhile (\<lambda>x. \<not> is_space x) cs = []"
    by (simp_all add: takeWhile_eq_all_conv)
  from w assms(2) show ?thesis by (simp add: t d)
qed

lemma split_ws_last_field:
  assumes "w \<noteq> []" and "\<forall>c\<in>set w. \<not> is_space c"
  shows "pre = [] \<or> is_space (last pre) \<Longrightarrow>
           split_ws (pre @ w) \<noteq> [] \<and> last (split_ws (pre @ w)) = w"
proof (induction pre rule: split_ws.induct)
  case 1
  show ?case using split_ws_word [OF assms] by simp
next
  case (2 c cs)
  show ?case
  proof (cases "is_space c")
    case True
    have "cs = [] \<or> is_space (last cs)" using "2.prems" by (cases cs) auto
    from "2.IH"(1) [OF True this] True show ?thesis by simp
  next
    case False
    then have ne: "cs \<noteq> []" and sp: "is_space (last cs)"
      using "2.prems" by (auto split: if_splits)
    then have ex: "\<exists>x\<in>set cs. \<not> (\<not> is_space x)" using last_in_set by blast
    have tw: "takeWhile (\<lambda>x. \<not> is_space x) (cs @ w) = takeWhile (\<lambda>x. \<not> is_space x) cs"
      using ex by (auto simp: takeWhile_append1)
    have dw: "dropWhile (\<lambda>x. \<not> is_space x) (cs @ w) = dropWhile (\<lambda>x. \<not> is_space x) cs @ w"
      using ex by (auto simp: dropWhile_append1)
    have dne: "dropWhile (\<lambda>x. \<not> is_space x) cs \<noteq> []"
      using ex by (simp add: dropWhile_eq_Nil_conv)
    then have "last (dropWhile (\<lambda>x. \<not> is_space x) cs) = last cs"
      by (metis last_appendR takeWhile_dropWhile_id)
    with sp dne have "dropWhile (\<lambda>x. \<not> is_space x) cs = [] \<or>
                      is_space (last (dropWhile (\<lambda>x. \<not> is_space x) cs))" by simp
    from "2.IH"(2) [OF False this] False tw dw show ?thesis by simp
  qed
qed

lemma get_guest_ip_loop_result:
  "get_guest_ip_loop E g m h = (Inr a, h') \<Longrightarrow>
     \<exists>hq q. h' = hq @ [Run q] \<and> parse_domifaddr (stdout (proc E hq q)) = Inr a"
proof (induction m arbitrary: h)
  case 0
  then show ?case by simp
next
  case (Suc m)
  obtain r h1 where v: "priv_virsh E g [Some ''domifaddr'', instance_name g] h = (r, h1)"
    by (cases "priv_virsh E g [Some ''domifaddr'', instance_name g] h") auto
  show ?case
  proof (cases r)
    case (Inr cp)
    with v have "h1 = h @ [Run (map the ([Some ''virsh'', Some ''-c'', connection_uri g] @
                                          [Some ''domifaddr'', instance_name g]))]"
      unfolding priv_virsh_def using subprocess_run_Inr by blast
    moreover from v Inr have "cp = proc E h (map the ([Some ''virsh'', Some ''-c'', connection_uri g] @
                                          [Some ''domifaddr'', instance_name g]))"
      unfolding priv_virsh_def subprocess_run_def by (auto simp: Let_def split: if_splits)
    ultimately show ?thesis using Suc.prems v Inr by auto
  next
    case (Inl e)
    with Suc.prems v have "get_guest_ip_loop E g m (h1 @ [Sleep 1]) = (Inr a, h')"
      by (auto split: if_splits)
    from Suc.IH [OF this] show ?thesis .
  qed
qed

lemma start_resolved:
  assumes "\<not> dry E" and "start E g h = (Inr (), g', h')"
  shows "\<exists>g2 hq hr b. get_guest_ip E g2 hq = (Inr b, hr) \<and>
           g' = g2\<lparr>guest := Some b, port := Some 22\<rparr>"
  using assms
  by (auto simp: start_def Let_def split: prod.splits sum.splits if_splits)

text \<open>
  C6. The parse of the address-query output succeeds exactly when the output has at
  least two lines and its last-but-one line has a field, and then gives the last
  white-space-delimited field of that line up to its first "/". An output whose
  last-but-one line ends in the field "192.0.2.5/24" resolves to "192.0.2.5". An address
  returned by the resolver is the parse of the output of its last query, and when
  \<open>start\<close> returns (no dry run) the handle holds a resolved address and the port 22.
\<close>

theorem resolved_address:
  "(parse_domifaddr out = Inr a \<longleftrightarrow>
      2 \<le> length (splitlines out) \<and>
      split_ws (splitlines out ! (length (splitlines out) - 2)) \<noteq> [] \<and>
      a = takeWhile (\<lambda>c. c \<noteq> CHR ''/'')
            (last (split_ws (splitlines out ! (length (splitlines out) - 2))))) \<and>
   (2 \<le> length (splitlines out) \<and>
    splitlines out ! (length (splitlines out) - 2) = pre @ ''192.0.2.5/24'' \<and>
    (pre = [] \<or> is_space (last pre)) \<longrightarrow> parse_domifaddr out = Inr ''192.0.2.5'') \<and>
   (get_guest_ip E g h = (Inr b, h1) \<longrightarrow>
      (\<exists>hq q. h1 = hq @ [Run q] \<and> parse_domifaddr (stdout (proc E hq q)) = Inr b)) \<and>
   (\<not> dry E \<and> start E g h = (Inr (), g', h') \<longrightarrow>
      (\<exists>g2 hq hr c. get_guest_ip E g2 hq = (Inr c, hr) \<and>
         g' = g2\<lparr>guest := Some c, port := Some 22\<rparr>))"
proof (intro conjI impI)
  show "parse_domifaddr out = Inr a \<longleftrightarrow>
      2 \<le> length (splitlines out) \<and>
      split_ws (splitlines out ! (length (splitlines out) - 2)) \<noteq> [] \<and>
      a = takeWhile (\<lambda>c. c \<noteq> CHR ''/'')
            (last (split_ws (splitlines out ! (length (splitlines out) - 2))))"
    by (auto simp: parse_domifaddr_eq)
next
  assume a: "2 \<le> length (splitlines out) \<and>
    splitlines out ! (length (splitlines out) - 2) = pre @ ''192.0.2.5/24'' \<and>
    (pre = [] \<or> is_space (last pre))"
  have "\<forall>c\<in>set ''192.0.2.5/24''. \<not> is_space c" by (simp add: is_space_def)
  from split_ws_last_field [OF _ this, of pre] a
  have "split_ws (pre @ ''192.0.2.5/24'') \<noteq> []"
    and "last (split_ws (pre @ ''192.0.2.5/24'')) = ''192.0.2.5/24''" by simp_all
  with a show "parse_domifaddr out = Inr ''192.0.2.5''"
    by (simp add: parse_domifaddr_eq)
next
  assume "get_guest_ip E g h = (Inr b, h1)"
  then show "\<exists>hq q. h1 = hq @ [Run q] \<and> parse_domifaddr (stdout (proc E hq q)) = Inr b"
    unfolding get_guest_ip_def by (rule get_guest_ip_loop_result)
next
  assume "\<not> dry E \<and> start E g h = (Inr (), g', h')"
  then show "\<exists>g2 hq hr c. get_guest_ip E g2 hq = (Inr c, hr) \<and>
         g' = g2\<lparr>guest := Some c, port := Some 22\<rparr>"
    using start_resolved by blast
qed


lemma fresh_proc_other:
  "proc fresh_env h (virsh_cmd u [''start'', n]) = ok []"
  "proc fresh_env h (virsh_cmd u [''domifaddr'', n]) = ok domifaddr_table"
  by (simp_all add: fresh_env_def scripted_def)

lemma splitlines_table:
  "splitlines domifaddr_table =
     ['' Name MAC Protocol Address'', ''------'', '' vnet0 52:54:00:00:00:01 ipv4 192.0.2.5/24'', []]"
  by (simp add: domifaddr_table_def is_linebreak_def)

lemma fresh_start:
  "start fresh_env handle0 [] =
     (Inr (), handle0\<lparr>key := [''/w/ssh_key''], guest := Some ''192.0.2.5'', port := Some 22\<rparr>,
      [Verbose ''instance_name'' ''g1'' ''yellow'',
       Run (virsh_cmd ''qemu:///system'' [''domstate'', ''g1'']),
       Verbose ''progress'' ''preparing for installation...'' ''cyan'',
       OpenW ''/w/ks.cfg'',
       Run (keygen_cmd ''/w/ssh_key''), Run (derive_cmd ''/w/ssh_key''),
       WriteFile ''/w/ks.cfg'' (KICKSTART_TEMPLATE ''root'' ''ssh-ed25519 AAAA'' [] [] []),
       Info ''progress'' ''installing...'' ''cyan'',
       Run (map the (virt_install_cmd (handle0\<lparr>key := [''/w/ssh_key'']\<rparr>) ''/w/ks.cfg'')),
       Run (virsh_cmd ''qemu:///system'' [''domstate'', ''g1'']),
       Run (virsh_cmd ''qemu:///system'' [''start'', ''g1'']),
       Run (virsh_cmd ''qemu:///system'' [''domifaddr'', ''g1'']),
       Verbose ''ip'' ''192.0.2.5'' ''green'', Verbose ''port'' ''22'' ''green'',
       Call (Reconnect (Some 60) (Some 1))])"
proof -
  let ?g1 = "handle0\<lparr>key := [''/w/ssh_key'']\<rparr>"
  let ?st = "virsh_cmd ''qemu:///system'' [''domstate'', ''g1'']"
  let ?sta = "virsh_cmd ''qemu:///system'' [''start'', ''g1'']"
  let ?q = "virsh_cmd ''qemu:///system'' [''domifaddr'', ''g1'']"
  have name: "tmt_name fresh_env [] = ''g1''" and d: "\<not> dry fresh_env"
    and c: "\<And>h k. collab fresh_env h k = Inr True"
    by (simp_all add: fresh_env_def scripted_def)
  have same: "handle0\<lparr>instance_name := Some ''g1''\<rparr> = handle0" by (simp add: handle0_def)
  have u: "connection_uri ?g1 = Some ''qemu:///system''" and n: "instance_name ?g1 = Some ''g1''"
    by (simp_all add: handle0_def)
  have n0: "instance_name handle0 = Some ''g1''" by (simp add: handle0_def)
  have gs: "\<And>h. length (filter (earlier ''domstate'') h) = 1 \<Longrightarrow>
               guest_state fresh_env ?g1 h = (Inr ''shut off'', h @ [Run ?st])"
    by (simp add: guest_state_Some [OF u n] fresh_proc ok_def py_index_0 is_linebreak_def)
  have sta: "\<And>h. priv_virsh fresh_env ?g1 [Some ''start'', Some ''g1''] h =
               (Inr (ok []), h @ [Run ?sta])"
    by (simp add: priv_virsh_Some [OF u] fresh_proc_other ok_def)
  have p: "parse_domifaddr domifaddr_table = Inr ''192.0.2.5''"
    by (simp add: parse_domifaddr_eq splitlines_table is_space_def)
  have ip: "\<And>h. get_guest_ip fresh_env ?g1 h = (Inr ''192.0.2.5'', h @ [Run ?q])"
    using get_guest_ip_loop_attempts [OF u n refl, of 0 fresh_env _ 10]
    by (simp add: get_guest_ip_def failed_attempts_def fresh_proc_other ok_def p)
  show ?thesis
    unfolding start_def Let_def name same
    by (simp add: d fresh_install gs sta ip call_collab_def c n0)
qed

theorem resolved_address_witness:
  "parse_domifaddr domifaddr_table = Inr ''192.0.2.5'' \<and>
   fst (start fresh_env handle0 []) = Inr () \<and>
   guest (fst (snd (start fresh_env handle0 []))) = Some ''192.0.2.5'' \<and>
   port (fst (snd (start fresh_env handle0 []))) = Some 22"
proof -
  let ?g' = "fst (snd (start fresh_env handle0 []))"
  let ?h' = "snd (snd (start fresh_env handle0 []))"
  have d: "\<not> dry fresh_env" by (simp add: fresh_env_def scripted_def)
  have s: "start fresh_env handle0 [] = (Inr (), ?g', ?h')" by (simp add: fresh_start)
  have l: "2 \<le> length (splitlines domifaddr_table) \<and>
           splitlines domifaddr_table ! (length (splitlines domifaddr_table) - 2) =
             '' vnet0 52:54:00:00:00:01 ipv4 '' @ ''192.0.2.5/24'' \<and>
           ('' vnet0 52:54:00:00:00:01 ipv4 '' = [] \<or> is_space (last '' vnet0 52:54:00:00:00:01 ipv4 ''))"
    by (simp add: splitlines_table is_space_def)
  from resolved_address [of domifaddr_table "''192.0.2.5''" "'' vnet0 52:54:00:00:00:01 ipv4 ''"
      fresh_env handle0 "[]" "[]" "[]" ?g' ?h'] l d s
  have "parse_domifaddr domifaddr_table = Inr ''192.0.2.5''"
    and "\<exists>g2 hq hr c. get_guest_ip fresh_env g2 hq = (Inr c, hr) \<and>
           ?g' = g2\<lparr>guest := Some c, port := Some 22\<rparr>"
    by blast+
  then obtain g2 c where "parse_domifaddr domifaddr_table = Inr ''192.0.2.5''"
    and e: "?g' = g2\<lparr>guest := Some c, port := Some 22\<rparr>" by blast
  moreover have "port (g2\<lparr>guest := Some c, port := Some 22\<rparr>) = Some 22" by simp
  then have "port ?g' = Some 22" by (simp only: e [symmetric])
  moreover have "fst (start fresh_env handle0 []) = Inr ()"
    and "guest ?g' = Some ''192.0.2.5''"
    by (simp_all add: fresh_start)
  ultimately show ?thesis by (simp only: simp_thms)
qed

end
